theory Spec2Isabelle
  imports Complex_Main "HOL-Library.AList"
begin

section \<open>Numbers, instants and the local calendar\<close>

text \<open>
  A JavaScript number as the availability route meets it: \<open>Number(text)\<close> of a query
  parameter is either \<open>NaN\<close> or a number. Numbers are rationals here: the rounding of
  IEEE doubles is not modelled, and the two infinities (which \<open>clampNumber\<close> treats as
  any value beyond the range) are left out.
\<close>

datatype jsnum = NaN | Num rat

text \<open>
  A valid \<open>Date\<close> is its time value: whole milliseconds since the epoch. The bound
  of 8.64e15 ms on time values is not modelled.
\<close>

type_synonym instant = int

text \<open>\<open>new Date(v)\<close> keeps the integral part of \<open>v\<close>, rounding toward zero.\<close>

definition timeClip :: "rat \<Rightarrow> instant" where
  "timeClip v = (if v < 0 then \<lceil>v\<rceil> else \<lfloor>v\<rfloor>)"

text \<open>\<open>clampNumber\<close>, lines 26-29. The fallback is a number that is not \<open>NaN\<close>.\<close>

definition clampNumber :: "jsnum \<Rightarrow> rat \<Rightarrow> rat \<Rightarrow> rat \<Rightarrow> rat" where
  "clampNumber v mn mx fallback =
     (case v of NaN \<Rightarrow> fallback | Num x \<Rightarrow> min (max x mn) mx)"

text \<open>\<open>addMinutes\<close>, lines 31-33.\<close>

definition addMinutes :: "instant \<Rightarrow> rat \<Rightarrow> instant" where
  "addMinutes date minutes = timeClip (of_int date + minutes * 60 * 1000)"

text \<open>
  The local calendar. The server's zone is taken to have a constant offset from UTC,
  \<open>tz\<close> milliseconds (local time = UTC + \<open>tz\<close>); daylight-saving changes are not
  modelled. \<open>localDay\<close> is the number of the local calendar day (days since
  1970-01-01), and \<open>civil\<close> turns it into year, month (1-12) and day of the month in
  the proleptic Gregorian calendar, which is what \<open>getFullYear\<close>, \<open>getMonth\<close> and
  \<open>getDate\<close> read.
\<close>

definition msPerDay :: int where
  "msPerDay = 86400000"

definition msPerHour :: int where
  "msPerHour = 3600000"

definition localDay :: "int \<Rightarrow> instant \<Rightarrow> int" where
  "localDay tz t = (t + tz) div msPerDay"

definition civil :: "int \<Rightarrow> int \<times> int \<times> int" where
  "civil z =
     (let z1 = z + 719468;
          era = z1 div 146097;
          doe = z1 mod 146097;
          yoe = (doe - doe div 1460 + doe div 36524 - doe div 146096) div 365;
          y = yoe + era * 400;
          doy = doe - (365 * yoe + yoe div 4 - yoe div 100);
          mp = (5 * doy + 2) div 153;
          d = doy - (153 * mp + 2) div 5 + 1;
          m = (if mp < 10 then mp + 3 else mp - 9)
      in (if m \<le> 2 then y + 1 else y, m, d))"

definition getFullYear :: "int \<Rightarrow> instant \<Rightarrow> int" where
  "getFullYear tz t = fst (civil (localDay tz t))"

definition getMonth :: "int \<Rightarrow> instant \<Rightarrow> int" where
  "getMonth tz t = fst (snd (civil (localDay tz t))) - 1"

definition getDate :: "int \<Rightarrow> instant \<Rightarrow> int" where
  "getDate tz t = snd (snd (civil (localDay tz t)))"

text \<open>
  \<open>Number.prototype.toString\<close> on an integer (in decimal, with a minus sign below
  zero) and \<open>padStart(2, "0")\<close>.
\<close>

definition digitChar :: "int \<Rightarrow> char" where
  "digitChar d =
     (if d = 0 then CHR ''0'' else if d = 1 then CHR ''1'' else if d = 2 then CHR ''2''
      else if d = 3 then CHR ''3'' else if d = 4 then CHR ''4'' else if d = 5 then CHR ''5''
      else if d = 6 then CHR ''6'' else if d = 7 then CHR ''7'' else if d = 8 then CHR ''8''
      else CHR ''9'')"

function digitsOf :: "int \<Rightarrow> string" where
  "digitsOf n = (if n < 10 then [digitChar n] else digitsOf (n div 10) @ [digitChar (n mod 10)])"
  by pat_completeness auto
termination
  by (relation "measure nat") auto

definition toString :: "int \<Rightarrow> string" where
  "toString i = (if i < 0 then CHR ''-'' # digitsOf (- i) else digitsOf i)"

definition padStart2 :: "string \<Rightarrow> string" where
  "padStart2 s = (if length s < 2 then replicate (2 - length s) CHR ''0'' @ s else s)"

text \<open>\<open>dayKey\<close>, lines 35-40: the local date as year-month-day.\<close>

definition dayKey :: "int \<Rightarrow> instant \<Rightarrow> string" where
  "dayKey tz date =
     toString (getFullYear tz date) @ ''-'' @ padStart2 (toString (getMonth tz date + 1)) @ ''-''
       @ padStart2 (toString (getDate tz date))"

text \<open>
  \<open>startOfDay\<close>, lines 95-100: local midnight of \<open>base\<close>'s day, moved by
  \<open>offsetDays\<close> calendar days. \<open>setHours(h, m, s, ms)\<close> on a local midnight adds
  the time of day; an hour that is not whole loses its fraction.
\<close>

definition localMidnight :: "int \<Rightarrow> instant \<Rightarrow> instant" where
  "localMidnight tz t = localDay tz t * msPerDay - tz"

definition startOfDay :: "int \<Rightarrow> instant \<Rightarrow> int \<Rightarrow> instant" where
  "startOfDay tz base offsetDays = localMidnight tz base + offsetDays * msPerDay"

definition setHours :: "instant \<Rightarrow> rat \<Rightarrow> int \<Rightarrow> int \<Rightarrow> int \<Rightarrow> instant" where
  "setHours midnight h m s ms = midnight + timeClip h * msPerHour + m * 60000 + s * 1000 + ms"

section \<open>Busy intervals and their sources\<close>

datatype intervalSource = Meeting | Notion

record busyInterval =
  iv_start :: instant
  iv_end :: instant
  iv_title :: string
  iv_source :: intervalSource

text \<open>
  A slot of the response. Its start and end are kept as instants: \<open>toISOString\<close>,
  which writes an instant in UTC, is not modelled.
\<close>

record slot =
  slot_start :: instant
  slot_end :: instant
  slot_durationMinutes :: rat

text \<open>
  A timestamp field of a stored record: missing (null, undefined or the empty string),
  a string that \<open>Date\<close> cannot parse, or a string that denotes an instant. The parser
  of \<open>Date\<close> itself is not modelled.
\<close>

datatype isoField = Missing | Unparseable | Iso instant

text \<open>\<open>toDate\<close>, lines 42-47.\<close>

definition toDate :: "isoField \<Rightarrow> instant option" where
  "toDate field = (case field of Missing \<Rightarrow> None | Unparseable \<Rightarrow> None | Iso t \<Rightarrow> Some t)"

record meeting =
  m_title :: string
  m_scheduledAt :: isoField
  m_endAt :: isoField

record notionEvent =
  ev_title :: string
  ev_start :: isoField
  ev_end :: isoField

text \<open>
  What the two collaborators answer when called: the list, or the message of the error
  they throw.
\<close>

record world =
  listMeetings :: "string + meeting list"
  fetchNotionEvents :: "string + notionEvent list"

datatype effect = CallListMeetings | CallFetchNotionEvents | ConsoleError string string

definition meetingInterval :: "meeting \<Rightarrow> busyInterval option" where
  "meetingInterval m =
     (case toDate (m_scheduledAt m) of
        None \<Rightarrow> None
      | Some start \<Rightarrow>
          Some \<lparr>iv_start = start,
                iv_end = (case toDate (m_endAt m) of Some e \<Rightarrow> e | None \<Rightarrow> addMinutes start 60),
                iv_title = m_title m, iv_source = Meeting\<rparr>)"

definition notionInterval :: "notionEvent \<Rightarrow> busyInterval option" where
  "notionInterval ev =
     (case toDate (ev_start ev) of
        None \<Rightarrow> None
      | Some start \<Rightarrow>
          Some \<lparr>iv_start = start,
                iv_end = (case toDate (ev_end ev) of Some e \<Rightarrow> e | None \<Rightarrow> addMinutes start 60),
                iv_title = ev_title ev, iv_source = Notion\<rparr>)"

text \<open>
  \<open>buildBusyIntervals\<close>, lines 49-89. Both branches of \<open>Promise.all\<close> start before
  either is awaited, so both collaborators are called. The calendar branch catches its
  own failure, logs it and yields the empty list; a failure of the meeting branch
  rejects the whole promise.
\<close>

definition notionBranch :: "world \<Rightarrow> busyInterval list \<times> effect list" where
  "notionBranch w =
     (case fetchNotionEvents w of
        Inl err \<Rightarrow> ([], [ConsoleError ''Failed to load Notion events for availability:'' err])
      | Inr events \<Rightarrow> (List.map_filter notionInterval events, []))"

definition buildBusyIntervals :: "world \<Rightarrow> (string + busyInterval list) \<times> effect list" where
  "buildBusyIntervals w =
     (let (notion, logged) = notionBranch w;
          calls = [CallListMeetings, CallFetchNotionEvents] @ logged
      in case listMeetings w of
           Inl err \<Rightarrow> (Inl err, calls)
         | Inr meetings \<Rightarrow> (Inr (List.map_filter meetingInterval meetings @ notion), calls))"

text \<open>\<open>overlaps\<close>, lines 91-93.\<close>

definition overlaps :: "instant \<Rightarrow> instant \<Rightarrow> busyInterval list \<Rightarrow> bool" where
  "overlaps slotStart slotEnd intervals =
     list_ex (\<lambda>interval. slotStart < iv_end interval \<and> slotEnd > iv_start interval) intervals"

section \<open>The availability request\<close>

text \<open>
  The environment of the process: each variable is unset or holds a number (a variable
  holding text that is not a number is not modelled), and the zone offset.
\<close>

record environment =
  AVAILABILITY_START_HOUR :: "rat option"
  AVAILABILITY_END_HOUR :: "rat option"
  AVAILABILITY_SLOT_MINUTES :: "rat option"
  AVAILABILITY_DURATION_MINUTES :: "rat option"
  AVAILABILITY_HORIZON_DAYS :: "rat option"
  AVAILABILITY_MAX_SLOTS :: "rat option"
  AVAILABILITY_LEAD_TIME_MINUTES :: "rat option"
  utcOffsetMs :: int

definition envNumber :: "rat option \<Rightarrow> rat \<Rightarrow> rat" where
  "envNumber var dflt = (case var of None \<Rightarrow> dflt | Some v \<Rightarrow> v)"

definition DEFAULT_WORK_START_HOUR :: "environment \<Rightarrow> rat" where
  "DEFAULT_WORK_START_HOUR env = envNumber (AVAILABILITY_START_HOUR env) 8"

definition DEFAULT_WORK_END_HOUR :: "environment \<Rightarrow> rat" where
  "DEFAULT_WORK_END_HOUR env = envNumber (AVAILABILITY_END_HOUR env) 21"

definition DEFAULT_SLOT_MINUTES :: "environment \<Rightarrow> rat" where
  "DEFAULT_SLOT_MINUTES env = envNumber (AVAILABILITY_SLOT_MINUTES env) 30"

definition DEFAULT_DURATION_MINUTES :: "environment \<Rightarrow> rat" where
  "DEFAULT_DURATION_MINUTES env = envNumber (AVAILABILITY_DURATION_MINUTES env) 30"

definition DEFAULT_HORIZON_DAYS :: "environment \<Rightarrow> rat" where
  "DEFAULT_HORIZON_DAYS env = envNumber (AVAILABILITY_HORIZON_DAYS env) 7"

definition DEFAULT_LIMIT :: "environment \<Rightarrow> rat" where
  "DEFAULT_LIMIT env = envNumber (AVAILABILITY_MAX_SLOTS env) 20"

definition DEFAULT_MIN_LEAD_MINUTES :: "environment \<Rightarrow> rat" where
  "DEFAULT_MIN_LEAD_MINUTES env = envNumber (AVAILABILITY_LEAD_TIME_MINUTES env) 60"

text \<open>
  The query string: for each parameter, \<open>None\<close> when it is absent, else what
  \<open>Number\<close> makes of its text. \<open>searchParams.get\<close> answers null for an absent
  parameter, and \<open>Number(null)\<close> is 0.
\<close>

record query =
  q_durationMinutes :: "jsnum option"
  q_slotMinutes :: "jsnum option"
  q_days :: "jsnum option"
  q_limit :: "jsnum option"
  q_leadTimeMinutes :: "jsnum option"

definition Number_of :: "jsnum option \<Rightarrow> jsnum" where
  "Number_of raw = (case raw of None \<Rightarrow> Num 0 | Some v \<Rightarrow> v)"

text \<open>\<open>a || b\<close> on numbers: \<open>b\<close> when \<open>a\<close> is \<open>NaN\<close> or zero.\<close>

definition orElse :: "jsnum \<Rightarrow> rat \<Rightarrow> jsnum" where
  "orElse a b = (case a of NaN \<Rightarrow> Num b | Num x \<Rightarrow> if x = 0 then Num b else Num x)"

text \<open>Lines 107-136: one parameter, and the five of them.\<close>

definition resolve :: "jsnum option \<Rightarrow> rat \<Rightarrow> rat \<Rightarrow> rat \<Rightarrow> rat" where
  "resolve raw mn mx dflt = clampNumber (orElse (Number_of raw) dflt) mn mx dflt"

record resolved =
  durationMinutes :: rat
  slotMinutes :: rat
  horizonDays :: rat
  slotLimit :: rat
  minLeadMinutes :: rat

definition resolveParams :: "environment \<Rightarrow> query \<Rightarrow> resolved" where
  "resolveParams env q =
     \<lparr>durationMinutes = resolve (q_durationMinutes q) 15 240 (DEFAULT_DURATION_MINUTES env),
      slotMinutes = resolve (q_slotMinutes q) 5 120 (DEFAULT_SLOT_MINUTES env),
      horizonDays = resolve (q_days q) 1 30 (DEFAULT_HORIZON_DAYS env),
      slotLimit = resolve (q_limit q) 1 200 (DEFAULT_LIMIT env),
      minLeadMinutes = resolve (q_leadTimeMinutes q) 0 (24 * 60) (DEFAULT_MIN_LEAD_MINUTES env)\<rparr>"

text \<open>Lines 149-158: the intervals grouped by the day key of their start.\<close>

definition bucketInsert ::
  "int \<Rightarrow> (string \<rightharpoonup> busyInterval list) \<Rightarrow> busyInterval \<Rightarrow> (string \<rightharpoonup> busyInterval list)" where
  "bucketInsert tz byDay interval =
     (let key = dayKey tz (iv_start interval)
      in case byDay key of
           Some bucket \<Rightarrow> byDay(key \<mapsto> bucket @ [interval])
         | None \<Rightarrow> byDay(key \<mapsto> [interval]))"

definition intervalsByDay :: "int \<Rightarrow> busyInterval list \<Rightarrow> (string \<rightharpoonup> busyInterval list)" where
  "intervalsByDay tz intervals = foldl (bucketInsert tz) Map.empty intervals"

definition bucketOf :: "(string \<rightharpoonup> busyInterval list) \<Rightarrow> string \<Rightarrow> busyInterval list" where
  "bucketOf byDay key = (case byDay key of Some bucket \<Rightarrow> bucket | None \<Rightarrow> [])"

text \<open>
  Lines 178-199: the walk of the cursor through one day. The loop ends when the cursor
  reaches the end of the window or the list is full, and at the first candidate that
  ends after the window. It need not end when the step is not positive: not returning
  is the value \<open>None\<close>.
\<close>

partial_function (option) scanDay ::
  "resolved \<Rightarrow> instant \<Rightarrow> instant \<Rightarrow> busyInterval list \<Rightarrow> instant \<Rightarrow> slot list \<Rightarrow> slot list option"
where
  "scanDay cfg workEnd earliestAllowedStart bucket cursor slots =
     (if cursor < workEnd \<and> of_nat (length slots) < slotLimit cfg then
        (if addMinutes cursor (durationMinutes cfg) > workEnd then Some slots
         else if cursor < earliestAllowedStart then
           scanDay cfg workEnd earliestAllowedStart bucket (addMinutes cursor (slotMinutes cfg)) slots
         else if overlaps cursor (addMinutes cursor (durationMinutes cfg)) bucket then
           scanDay cfg workEnd earliestAllowedStart bucket (addMinutes cursor (slotMinutes cfg)) slots
         else
           scanDay cfg workEnd earliestAllowedStart bucket (addMinutes cursor (slotMinutes cfg))
             (slots @ [\<lparr>slot_start = cursor,
                         slot_end = addMinutes cursor (durationMinutes cfg),
                         slot_durationMinutes = durationMinutes cfg\<rparr>]))
      else Some slots)"

declare scanDay.simps [code]

text \<open>The window of the day at \<open>dayOffset\<close>, lines 164-171.\<close>

definition dayStartOf :: "environment \<Rightarrow> instant \<Rightarrow> nat \<Rightarrow> instant" where
  "dayStartOf env now dayOffset = startOfDay (utcOffsetMs env) now (int dayOffset)"

definition dayEndOf :: "environment \<Rightarrow> instant \<Rightarrow> nat \<Rightarrow> instant" where
  "dayEndOf env now dayOffset = setHours (dayStartOf env now dayOffset) 23 59 59 999"

definition workStartOf :: "environment \<Rightarrow> instant \<Rightarrow> nat \<Rightarrow> instant" where
  "workStartOf env now dayOffset =
     setHours (dayStartOf env now dayOffset) (DEFAULT_WORK_START_HOUR env) 0 0 0"

definition workEndOf :: "environment \<Rightarrow> instant \<Rightarrow> nat \<Rightarrow> instant" where
  "workEndOf env now dayOffset =
     setHours (dayStartOf env now dayOffset) (DEFAULT_WORK_END_HOUR env) 0 0 0"

text \<open>Lines 163-200: the walk through the days of the horizon.\<close>

function dayLoop ::
  "environment \<Rightarrow> instant \<Rightarrow> resolved \<Rightarrow> (string \<rightharpoonup> busyInterval list) \<Rightarrow> instant \<Rightarrow> nat \<Rightarrow> slot list
     \<Rightarrow> slot list option"
where
  "dayLoop env now cfg byDay earliestAllowedStart dayOffset slots =
     (if of_nat dayOffset < horizonDays cfg \<and> of_nat (length slots) < slotLimit cfg then
        (if workEndOf env now dayOffset \<le> earliestAllowedStart
              \<and> dayEndOf env now dayOffset \<le> earliestAllowedStart then
           dayLoop env now cfg byDay earliestAllowedStart (Suc dayOffset) slots
         else
           (case scanDay cfg (workEndOf env now dayOffset) earliestAllowedStart
                   (bucketOf byDay (dayKey (utcOffsetMs env) (dayStartOf env now dayOffset)))
                   (workStartOf env now dayOffset) slots of
              None \<Rightarrow> None
            | Some slots' \<Rightarrow> dayLoop env now cfg byDay earliestAllowedStart (Suc dayOffset) slots'))
      else Some slots)"
  by pat_completeness auto
termination
  by (relation "measure (\<lambda>(env, now, cfg, byDay, earliest, dayOffset, slots).
         nat \<lceil>horizonDays cfg\<rceil> - dayOffset)")
     (auto intro!: diff_less_mono2 simp: zless_nat_eq_int_zless less_ceiling_iff)

text \<open>
  The answers of the route: the JSON body with status 200, or an error body
  \<open>{ error: message }\<close> with its status.
\<close>

record payload =
  generatedAt :: instant
  p_horizonDays :: rat
  p_slotMinutes :: rat
  p_durationMinutes :: rat
  p_slots :: "slot list"

datatype response = Json200 payload | JsonError nat string

text \<open>Lines 148-200: the slots for a list of busy intervals.\<close>

definition generateSlots ::
  "environment \<Rightarrow> instant \<Rightarrow> resolved \<Rightarrow> busyInterval list \<Rightarrow> slot list option" where
  "generateSlots env now cfg intervals =
     dayLoop env now cfg (intervalsByDay (utcOffsetMs env) intervals)
       (addMinutes now (minLeadMinutes cfg)) 0 []"

text \<open>
  \<open>GET\<close>, lines 102-214, with the instant \<open>new Date()\<close> reads as \<open>now\<close>. The
  result is the response together with the calls made and lines logged on the way;
  \<open>None\<close> when the handler does not return.
\<close>

definition GET :: "environment \<Rightarrow> instant \<Rightarrow> query \<Rightarrow> world \<Rightarrow> (response \<times> effect list) option" where
  "GET env now q w =
     (let cfg = resolveParams env q;
          workStartHour = DEFAULT_WORK_START_HOUR env;
          workEndHour = DEFAULT_WORK_END_HOUR env
      in if workEndHour \<le> workStartHour then
           Some (JsonError 500 ''Invalid availability hours configuration'', [])
         else
           (case buildBusyIntervals w of
              (Inl message, fx) \<Rightarrow>
                Some (JsonError 500 message, fx @ [ConsoleError ''Availability error:'' message])
            | (Inr intervals, fx) \<Rightarrow>
                (case generateSlots env now cfg intervals of
                   None \<Rightarrow> None
                 | Some slots \<Rightarrow>
                     Some (Json200 \<lparr>generatedAt = now, p_horizonDays = horizonDays cfg,
                                    p_slotMinutes = slotMinutes cfg,
                                    p_durationMinutes = durationMinutes cfg, p_slots = slots\<rparr>,
                           fx))))"

text \<open>The slot list a response carries: an error body has none.\<close>

definition slotsOf :: "response \<Rightarrow> slot list" where
  "slotsOf resp = (case resp of Json200 body \<Rightarrow> p_slots body | JsonError status message \<Rightarrow> [])"

section \<open>The walk without the day skip\<close>

text \<open>
  The walk of section 4.3 of the specification with step 2b left out: every day of the
  horizon is scanned, also a day that lies wholly before the earliest allowed start.
\<close>

function dayLoopScanAll ::
  "environment \<Rightarrow> instant \<Rightarrow> resolved \<Rightarrow> (string \<rightharpoonup> busyInterval list) \<Rightarrow> instant \<Rightarrow> nat \<Rightarrow> slot list
     \<Rightarrow> slot list option"
where
  "dayLoopScanAll env now cfg byDay earliestAllowedStart dayOffset slots =
     (if of_nat dayOffset < horizonDays cfg \<and> of_nat (length slots) < slotLimit cfg then
        (case scanDay cfg (workEndOf env now dayOffset) earliestAllowedStart
                (bucketOf byDay (dayKey (utcOffsetMs env) (dayStartOf env now dayOffset)))
                (workStartOf env now dayOffset) slots of
           None \<Rightarrow> None
         | Some slots' \<Rightarrow> dayLoopScanAll env now cfg byDay earliestAllowedStart (Suc dayOffset) slots')
      else Some slots)"
  by pat_completeness auto
termination
  by (relation "measure (\<lambda>(env, now, cfg, byDay, earliest, dayOffset, slots).
         nat \<lceil>horizonDays cfg\<rceil> - dayOffset)")
     (auto intro!: diff_less_mono2 simp: zless_nat_eq_int_zless less_ceiling_iff)

declare dayLoop.simps [simp del] dayLoopScanAll.simps [simp del] digitsOf.simps [simp del]

section \<open>What the statements speak of\<close>

text \<open>
  A slot that the walk of one day may emit: it starts inside the window, lasts the
  requested duration, ends inside the window, does not start before the earliest
  allowed start and overlaps nothing in the bucket it was tested against.
\<close>

definition slotOk :: "resolved \<Rightarrow> instant \<Rightarrow> instant \<Rightarrow> busyInterval list \<Rightarrow> slot \<Rightarrow> bool" where
  "slotOk cfg workEnd earliest bucket s \<longleftrightarrow>
     slot_start s < workEnd \<and> slot_end s = addMinutes (slot_start s) (durationMinutes cfg)
     \<and> slot_end s \<le> workEnd \<and> earliest \<le> slot_start s
     \<and> \<not> overlaps (slot_start s) (slot_end s) bucket
     \<and> slot_durationMinutes s = durationMinutes cfg"

definition slotOnDay ::
  "environment \<Rightarrow> instant \<Rightarrow> resolved \<Rightarrow> (string \<rightharpoonup> busyInterval list) \<Rightarrow> instant \<Rightarrow> nat \<Rightarrow> slot \<Rightarrow> bool" where
  "slotOnDay env now cfg byDay earliest day s \<longleftrightarrow>
     workStartOf env now day \<le> slot_start s
     \<and> slotOk cfg (workEndOf env now day) earliest
          (bucketOf byDay (dayKey (utcOffsetMs env) (dayStartOf env now day))) s"

text \<open>Strictly ascending start times.\<close>

definition ascending :: "slot list \<Rightarrow> bool" where
  "ascending slots = sorted_wrt (\<lambda>a b. slot_start a < slot_start b) slots"

text \<open>
  A raw value clamped into its range, and how a resolved parameter follows its raw
  value: the clamped default when the parameter is absent or not a number, the clamped
  value when it is a number other than zero. Nothing is said of zero.
\<close>

definition clampTo :: "rat \<Rightarrow> rat \<Rightarrow> rat \<Rightarrow> rat" where
  "clampTo mn mx v = min (max v mn) mx"

definition resolvesAs :: "jsnum option \<Rightarrow> rat \<Rightarrow> rat \<Rightarrow> rat \<Rightarrow> rat \<Rightarrow> bool" where
  "resolvesAs raw mn mx dflt r =
     (case raw of
        None \<Rightarrow> r = clampTo mn mx dflt
      | Some NaN \<Rightarrow> r = clampTo mn mx dflt
      | Some (Num v) \<Rightarrow> v = 0 \<or> r = clampTo mn mx v)"

text \<open>
  The positions that the cursor of one day takes, counted from the start of the window;
  the candidate slot at a position; and the tests of the inner loop that a candidate
  passes to be pushed: the cursor is before the end of the window, the candidate does
  not end after it, does not start before the earliest allowed start, and overlaps no
  busy interval of the bucket. \<open>acceptableOn\<close> reads these tests for one day of the
  horizon and one position of its cursor, the bucket being the intervals that start on
  that local day.
\<close>

primrec cursorAt :: "resolved \<Rightarrow> instant \<Rightarrow> nat \<Rightarrow> instant" where
  "cursorAt cfg start 0 = start"
| "cursorAt cfg start (Suc k) = addMinutes (cursorAt cfg start k) (slotMinutes cfg)"

definition candidateAt :: "resolved \<Rightarrow> instant \<Rightarrow> slot" where
  "candidateAt cfg cursor =
     \<lparr>slot_start = cursor, slot_end = addMinutes cursor (durationMinutes cfg),
      slot_durationMinutes = durationMinutes cfg\<rparr>"

definition acceptable :: "resolved \<Rightarrow> instant \<Rightarrow> instant \<Rightarrow> busyInterval list \<Rightarrow> instant \<Rightarrow> bool" where
  "acceptable cfg workEnd earliest bucket cursor \<longleftrightarrow>
     cursor < workEnd \<and> \<not> addMinutes cursor (durationMinutes cfg) > workEnd
     \<and> \<not> cursor < earliest
     \<and> \<not> overlaps cursor (addMinutes cursor (durationMinutes cfg)) bucket"

definition acceptableOn ::
  "environment \<Rightarrow> instant \<Rightarrow> resolved \<Rightarrow> busyInterval list \<Rightarrow> nat \<Rightarrow> nat \<Rightarrow> bool" where
  "acceptableOn env now cfg intervals day k \<longleftrightarrow>
     acceptable cfg (workEndOf env now day) (addMinutes now (minLeadMinutes cfg))
       (filter (\<lambda>i. dayKey (utcOffsetMs env) (iv_start i)
                       = dayKey (utcOffsetMs env) (dayStartOf env now day)) intervals)
       (cursorAt cfg (workStartOf env now day) k)"

section \<open>The places store\<close>

text \<open>\<open>callStatus.ts\<close>: the six call statuses.\<close>

definition CALL_STATUSES :: "string list" where
  "CALL_STATUSES = [''Not called'', ''Didn't answer'', ''Manager was not available'',
     ''Not interested'', ''Interested'', ''Meeting planned'']"

definition DEFAULT_CALL_STATUS :: string where
  "DEFAULT_CALL_STATUS = ''Not called''"

text \<open>
  A value as JSON or a request body carries it; \<open>JUndefined\<close> is a property the object
  does not have of its own. A string is the UTF-8 encoding of its text.
\<close>

datatype jsvalue = JUndefined | JNull | JBool bool | JNumber rat | JString string | JObject

definition truthy :: "jsvalue \<Rightarrow> bool" where
  "truthy v = (case v of JUndefined \<Rightarrow> False | JNull \<Rightarrow> False | JBool b \<Rightarrow> b
     | JNumber n \<Rightarrow> n \<noteq> 0 | JString s \<Rightarrow> s \<noteq> [] | JObject \<Rightarrow> True)"

definition isCallStatus :: "jsvalue \<Rightarrow> bool" where
  "isCallStatus v = (case v of JString s \<Rightarrow> s \<in> set CALL_STATUSES | _ \<Rightarrow> False)"

text \<open>\<open>sanitizeCallStatus\<close>, lines 28-30 of the places route.\<close>

definition sanitizeCallStatus :: "jsvalue \<Rightarrow> string" where
  "sanitizeCallStatus v = (case v of JString s \<Rightarrow> if isCallStatus v then s else DEFAULT_CALL_STATUS
     | _ \<Rightarrow> DEFAULT_CALL_STATUS)"

text \<open>
  The state of the process that outlives a request: the property \<open>callStatus\<close> of
  \<open>Object.prototype\<close>, \<open>None\<close> as long as nothing has assigned it. Reading
  \<open>callStatus\<close> from an object that has none of its own answers the inherited one. The
  only assignments to a \<open>callStatus\<close> write a string that has passed \<open>isCallStatus\<close>.
\<close>

definition inherited :: "string option \<Rightarrow> jsvalue \<Rightarrow> jsvalue" where
  "inherited proto own =
     (case own of
        JUndefined \<Rightarrow> (case proto of None \<Rightarrow> JUndefined | Some s \<Rightarrow> JString s)
      | _ \<Rightarrow> own)"

record dbPlace =
  key :: string
  name :: string
  phoneNumber :: "string option"
  websiteUri :: "string option"
  websiteCategory :: string
  callStatus :: string

text \<open>
  An object as the file or a request body holds a place: every field may be missing,
  and the call status may be any value. The other fields are typed as the route
  declares them, and fields the route never reads are left out.
\<close>

record rawPlace =
  r_name :: "string option"
  r_phoneNumber :: "string option"
  r_websiteUri :: "string option"
  r_websiteCategory :: "string option"
  r_callStatus :: jsvalue

definition noFields :: rawPlace where
  "noFields = \<lparr>r_name = None, r_phoneNumber = None, r_websiteUri = None,
     r_websiteCategory = None, r_callStatus = JUndefined\<rparr>"

text \<open>
  The file \<open>places-db.json\<close>: missing, not JSON or the JSON null (reading it,
  parsing it or reading \<open>places\<close> of it throws), or a document whose \<open>places\<close>
  member, when there is one, maps keys to entries. An entry is null (\<open>None\<close>) or an
  object; a value of another kind has no field the route reads and stands as the object
  \<open>noFields\<close>. The entries are listed in the order of the file; that
  \<open>Object.entries\<close> lists keys that are array indices first is not modelled. Failures
  of writing are not modelled.
\<close>

datatype placesFile = Unreadable | Document "(string \<times> rawPlace option) list option"

text \<open>
  The object \<open>normalized\<close> of \<open>ensureDb\<close>, which the handlers know as \<open>db.places\<close>:
  its own properties in insertion order, and the place that an assignment to the key
  \<open>__proto__\<close> has made its prototype, if there was one. Without one the prototype is
  \<open>Object.prototype\<close>.
\<close>

record placesObject =
  ownPlaces :: "(string \<times> dbPlace) list"
  prototypePlace :: "dbPlace option"

definition orEmpty :: "string option \<Rightarrow> string" where
  "orEmpty v = (case v of None \<Rightarrow> [] | Some s \<Rightarrow> s)"

text \<open>
  \<open>String.prototype.trim\<close>: white space and line terminators are taken from both
  ends. These are the code points 9 to 13, 32, 160, 0x1680, 0x2000 to 0x200A, 0x2028,
  0x2029, 0x202F, 0x205F, 0x3000 and 0xFEFF, here in UTF-8.
\<close>

definition whiteSpace :: "string list" where
  "whiteSpace =
     [[CHR 0x09], [CHR 0x0A], [CHR 0x0B], [CHR 0x0C], [CHR 0x0D], [CHR 0x20],
      [CHR 0xC2, CHR 0xA0], [CHR 0xE1, CHR 0x9A, CHR 0x80],
      [CHR 0xE2, CHR 0x80, CHR 0x80], [CHR 0xE2, CHR 0x80, CHR 0x81],
      [CHR 0xE2, CHR 0x80, CHR 0x82], [CHR 0xE2, CHR 0x80, CHR 0x83],
      [CHR 0xE2, CHR 0x80, CHR 0x84], [CHR 0xE2, CHR 0x80, CHR 0x85],
      [CHR 0xE2, CHR 0x80, CHR 0x86], [CHR 0xE2, CHR 0x80, CHR 0x87],
      [CHR 0xE2, CHR 0x80, CHR 0x88], [CHR 0xE2, CHR 0x80, CHR 0x89],
      [CHR 0xE2, CHR 0x80, CHR 0x8A], [CHR 0xE2, CHR 0x80, CHR 0xA8],
      [CHR 0xE2, CHR 0x80, CHR 0xA9], [CHR 0xE2, CHR 0x80, CHR 0xAF],
      [CHR 0xE2, CHR 0x81, CHR 0x9F], [CHR 0xE3, CHR 0x80, CHR 0x80],
      [CHR 0xEF, CHR 0xBB, CHR 0xBF]]"

definition leading :: "string list \<Rightarrow> string \<Rightarrow> nat" where
  "leading marks s =
     (case List.find (\<lambda>w. take (length w) s = w) marks of None \<Rightarrow> 0 | Some w \<Rightarrow> length w)"

function stripLeading :: "string list \<Rightarrow> string \<Rightarrow> string" where
  "stripLeading marks s =
     (if leading marks s = 0 \<or> s = [] then s else stripLeading marks (drop (leading marks s) s))"
  by pat_completeness auto
termination
  by (relation "measure (\<lambda>(marks, s). length s)") auto

declare stripLeading.simps [simp del]

definition trim :: "string \<Rightarrow> string" where
  "trim s = rev (stripLeading (map rev whiteSpace) (rev (stripLeading whiteSpace s)))"

text \<open>\<open>computePlaceKey\<close>, lines 22-26. Lower-casing is modelled on ASCII letters.\<close>

definition lowerChar :: "char \<Rightarrow> char" where
  "lowerChar c = (if 65 \<le> (of_char c :: nat) \<and> (of_char c :: nat) \<le> 90
                  then char_of ((of_char c :: nat) + 32) else c)"

definition toLowerCase :: "string \<Rightarrow> string" where
  "toLowerCase s = map lowerChar s"

definition computePlaceKey :: "string \<Rightarrow> string option \<Rightarrow> string" where
  "computePlaceKey placeName uri =
     toLowerCase (trim placeName) @ ''|'' @ toLowerCase (trim (orEmpty uri))"

text \<open>
  \<open>saveDb\<close>, lines 68-70: the file becomes the serialised database. \<open>JSON.stringify\<close>
  writes the own properties of \<open>db.places\<close> and nothing of its prototype.
\<close>

definition toRaw :: "dbPlace \<Rightarrow> rawPlace" where
  "toRaw p = \<lparr>r_name = Some (name p), r_phoneNumber = phoneNumber p, r_websiteUri = websiteUri p,
     r_websiteCategory = Some (websiteCategory p), r_callStatus = JString (callStatus p)\<rparr>"

definition saveDb :: "placesObject \<Rightarrow> placesFile" where
  "saveDb db = Document (Some (map (\<lambda>(k, p). (k, Some (toRaw p))) (ownPlaces db)))"

text \<open>
  \<open>ensureDb\<close>, lines 32-66: the normalised database and the store as it is left.
  \<open>value?.callStatus\<close> is undefined for a null entry and is read through the prototype
  for an object. The assignment \<open>normalized[key] = ...\<close> adds or replaces an own
  property, except for the key \<open>__proto__\<close>, where it makes the new place the
  prototype of \<open>normalized\<close>.
\<close>

definition fieldsOf :: "rawPlace option \<Rightarrow> rawPlace" where
  "fieldsOf v = (case v of None \<Rightarrow> noFields | Some r \<Rightarrow> r)"

definition readStatus :: "string option \<Rightarrow> rawPlace option \<Rightarrow> jsvalue" where
  "readStatus proto v = (case v of None \<Rightarrow> JUndefined | Some r \<Rightarrow> inherited proto (r_callStatus r))"

definition normalizePlace :: "string option \<Rightarrow> string \<Rightarrow> rawPlace option \<Rightarrow> dbPlace" where
  "normalizePlace proto k v =
     \<lparr>key = k, name = orEmpty (r_name (fieldsOf v)), phoneNumber = r_phoneNumber (fieldsOf v),
      websiteUri = r_websiteUri (fieldsOf v),
      websiteCategory = (case r_websiteCategory (fieldsOf v) of None \<Rightarrow> ''none'' | Some c \<Rightarrow> c),
      callStatus = sanitizeCallStatus (readStatus proto v)\<rparr>"

definition assignPlace :: "placesObject \<Rightarrow> string \<Rightarrow> dbPlace \<Rightarrow> placesObject" where
  "assignPlace obj k p =
     (if k = ''__proto__'' then obj\<lparr>prototypePlace := Some p\<rparr>
      else obj\<lparr>ownPlaces := AList.update k p (ownPlaces obj)\<rparr>)"

definition emptyPlaces :: placesObject where
  "emptyPlaces = \<lparr>ownPlaces = [], prototypePlace = None\<rparr>"

definition ensureDb :: "string option \<Rightarrow> placesFile \<Rightarrow> placesObject \<times> placesFile" where
  "ensureDb proto store =
     (case store of
        Unreadable \<Rightarrow> (emptyPlaces, saveDb emptyPlaces)
      | Document places \<Rightarrow>
          (let entries = (case places of None \<Rightarrow> [] | Some es \<Rightarrow> es);
               normalized = foldl (\<lambda>acc (k, v). assignPlace acc k (normalizePlace proto k v))
                              emptyPlaces entries;
               mutated = list_ex (\<lambda>(k, v). readStatus proto v
                                    \<noteq> JString (sanitizeCallStatus (readStatus proto v))) entries
           in (normalized, if mutated then saveDb normalized else store)))"

text \<open>
  \<open>db.places[key]\<close>: an own property; else, through the prototype chain, the
  prototype itself for the key \<open>__proto__\<close>, a field of the place that is the
  prototype, a function of \<open>Object.prototype\<close>, or the inherited \<open>callStatus\<close> once
  \<open>Object.prototype\<close> has one; else undefined.
\<close>

datatype looked =
    Absent
  | OwnPlace dbPlace
  | PrototypePlace dbPlace
  | ObjectPrototype
  | BuiltinFunction
  | Primitive "string option"

definition objectPrototypeFunctions :: "string list" where
  "objectPrototypeFunctions = [''constructor'', ''__defineGetter__'', ''__defineSetter__'',
     ''hasOwnProperty'', ''__lookupGetter__'', ''__lookupSetter__'', ''isPrototypeOf'',
     ''propertyIsEnumerable'', ''toString'', ''valueOf'', ''toLocaleString'']"

definition placeField :: "dbPlace \<Rightarrow> string \<Rightarrow> string option option" where
  "placeField p k =
     (if k = ''key'' then Some (Some (key p))
      else if k = ''name'' then Some (Some (name p))
      else if k = ''phoneNumber'' then Some (phoneNumber p)
      else if k = ''websiteUri'' then Some (websiteUri p)
      else if k = ''websiteCategory'' then Some (Some (websiteCategory p))
      else if k = ''callStatus'' then Some (Some (callStatus p))
      else None)"

definition lookupPlace :: "string option \<Rightarrow> placesObject \<Rightarrow> string \<Rightarrow> looked" where
  "lookupPlace proto db k =
     (case map_of (ownPlaces db) k of
        Some p \<Rightarrow> OwnPlace p
      | None \<Rightarrow>
          if k = ''__proto__'' then
            (case prototypePlace db of Some r \<Rightarrow> PrototypePlace r | None \<Rightarrow> ObjectPrototype)
          else
            (case (case prototypePlace db of Some r \<Rightarrow> placeField r k | None \<Rightarrow> None) of
               Some v \<Rightarrow> Primitive v
             | None \<Rightarrow>
                 if k \<in> set objectPrototypeFunctions then BuiltinFunction
                 else if k = ''callStatus'' \<and> proto \<noteq> None then Primitive proto
                 else Absent))"

definition truthyLooked :: "looked \<Rightarrow> bool" where
  "truthyLooked v = (case v of Absent \<Rightarrow> False | Primitive None \<Rightarrow> False
     | Primitive (Some s) \<Rightarrow> s \<noteq> [] | _ \<Rightarrow> True)"

text \<open>
  What \<open>JSON.stringify\<close> makes of the \<open>place\<close> of a response: a place record; the own
  enumerable properties of \<open>Object.prototype\<close>, which are its \<open>callStatus\<close> if it has
  one; nothing for a function; the string for a string.
\<close>

datatype returned = PlaceRecord dbPlace | PrototypeJson "string option" | NoJson | TextJson string

definition returnedOf :: "string option \<Rightarrow> looked \<Rightarrow> returned" where
  "returnedOf proto v = (case v of OwnPlace p \<Rightarrow> PlaceRecord p | PrototypePlace p \<Rightarrow> PlaceRecord p
     | ObjectPrototype \<Rightarrow> PrototypeJson proto | BuiltinFunction \<Rightarrow> NoJson
     | Primitive (Some s) \<Rightarrow> TextJson s | Primitive None \<Rightarrow> NoJson | Absent \<Rightarrow> NoJson)"

text \<open>
  The answers of the places route: the listing of \<open>GET\<close>, the place of \<open>POST\<close> and of
  \<open>PATCH\<close>, the key of \<open>DELETE\<close>, or an error body with its status.
\<close>

datatype placesResponse =
    Listing "string list" "dbPlace list"
  | Posted string returned
  | Patched returned
  | Deleted string
  | Failure nat string

text \<open>
  A request body: \<open>Throws\<close> when \<open>req.json()\<close> throws or the body is the JSON null, so
  that reading a member of it throws; the handler answers with status 500 and the
  message of the error.
\<close>

datatype 'a body = Throws string | Json 'a

fun join :: "string \<Rightarrow> string list \<Rightarrow> string" where
  "join sep [] = []"
| "join sep [x] = x"
| "join sep (x # y # ys) = x @ sep @ join sep (y # ys)"

definition invalidCallStatus :: string where
  "invalidCallStatus = ''Invalid callStatus. Accepted values: '' @ join '', '' CALL_STATUSES"

text \<open>
  The message of the \<open>TypeError\<close> that an assignment to a property of a string throws
  in strict code, in the words of V8.
\<close>

definition cannotCreateProperty :: "string \<Rightarrow> string" where
  "cannotCreateProperty s =
     ''Cannot create property '' @ [CHR 0x27] @ ''callStatus'' @ [CHR 0x27] @ '' on string ''
       @ [CHR 0x27] @ s @ [CHR 0x27]"

text \<open>
  The handlers of the places route, each giving the response, the \<open>callStatus\<close> of
  \<open>Object.prototype\<close> and the store as they are left: \<open>GET\<close> (lines 72-78), \<open>POST\<close>
  (lines 80-115), \<open>PATCH\<close> (lines 117-145) and \<open>DELETE\<close> (lines 147-166).
\<close>

definition places_GET :: "string option \<Rightarrow> placesFile \<Rightarrow> placesResponse \<times> string option \<times> placesFile" where
  "places_GET proto store =
     (let (db, store') = ensureDb proto store
      in (Listing (map fst (ownPlaces db)) (map snd (ownPlaces db)), proto, store'))"

definition places_POST ::
  "string option \<Rightarrow> rawPlace option body \<Rightarrow> placesFile \<Rightarrow> placesResponse \<times> string option \<times> placesFile" where
  "places_POST proto req store =
     (case req of
        Throws message \<Rightarrow> (Failure 500 message, proto, store)
      | Json None \<Rightarrow> (Failure 400 ''Missing place.name'', proto, store)
      | Json (Some place) \<Rightarrow>
          if orEmpty (r_name place) = [] then (Failure 400 ''Missing place.name'', proto, store)
          else if truthy (inherited proto (r_callStatus place))
                  \<and> \<not> isCallStatus (inherited proto (r_callStatus place)) then
            (Failure 400 invalidCallStatus, proto, store)
          else
            (let k = computePlaceKey (orEmpty (r_name place)) (r_websiteUri place);
                 (db, store') = ensureDb proto store
             in if \<not> truthyLooked (lookupPlace proto db k) then
                  (let created = \<lparr>key = k, name = orEmpty (r_name place),
                         phoneNumber = r_phoneNumber place, websiteUri = r_websiteUri place,
                         websiteCategory =
                           (case r_websiteCategory place of None \<Rightarrow> ''none'' | Some c \<Rightarrow> c),
                         callStatus = sanitizeCallStatus (inherited proto (r_callStatus place))\<rparr>;
                       db' = assignPlace db k created
                   in (Posted k (returnedOf proto (lookupPlace proto db' k)), proto, saveDb db'))
                else (Posted k (returnedOf proto (lookupPlace proto db k)), proto, store')))"

record patchBody =
  pb_key :: "string option"
  pb_callStatus :: jsvalue

definition places_PATCH ::
  "string option \<Rightarrow> patchBody body \<Rightarrow> placesFile \<Rightarrow> placesResponse \<times> string option \<times> placesFile" where
  "places_PATCH proto req store =
     (case req of
        Throws message \<Rightarrow> (Failure 500 message, proto, store)
      | Json b \<Rightarrow>
          (let k = orEmpty (map_option trim (pb_key b))
           in if k = [] then (Failure 400 ''Missing key'', proto, store)
              else case inherited proto (pb_callStatus b) of
                     JString status \<Rightarrow>
                       if \<not> isCallStatus (JString status) then
                         (Failure 400 invalidCallStatus, proto, store)
                       else
                         (let (db, store') = ensureDb proto store
                          in case lookupPlace proto db k of
                               Absent \<Rightarrow> (Failure 404 ''Place not found'', proto, store')
                             | Primitive None \<Rightarrow> (Failure 404 ''Place not found'', proto, store')
                             | Primitive (Some s) \<Rightarrow>
                                 if s = [] then (Failure 404 ''Place not found'', proto, store')
                                 else (Failure 500 (cannotCreateProperty s), proto, store')
                             | OwnPlace existing \<Rightarrow>
                                 (let patched = existing\<lparr>callStatus := status\<rparr>
                                  in (Patched (PlaceRecord patched), proto,
                                      saveDb (db\<lparr>ownPlaces := AList.update k patched (ownPlaces db)\<rparr>)))
                             | PrototypePlace existing \<Rightarrow>
                                 (Patched (PlaceRecord (existing\<lparr>callStatus := status\<rparr>)), proto,
                                  saveDb db)
                             | ObjectPrototype \<Rightarrow>
                                 (Patched (PrototypeJson (Some status)), Some status, saveDb db)
                             | BuiltinFunction \<Rightarrow> (Patched NoJson, proto, saveDb db))
                   | _ \<Rightarrow> (Failure 400 invalidCallStatus, proto, store)))"

definition places_DELETE ::
  "string option \<Rightarrow> string option body \<Rightarrow> placesFile \<Rightarrow> placesResponse \<times> string option \<times> placesFile" where
  "places_DELETE proto req store =
     (case req of
        Throws message \<Rightarrow> (Failure 500 message, proto, store)
      | Json k0 \<Rightarrow>
          (let k = orEmpty (map_option trim k0)
           in if k = [] then (Failure 400 ''Missing key'', proto, store)
              else
                (let (db, store') = ensureDb proto store
                 in if truthyLooked (lookupPlace proto db k) then
                      (Deleted k, proto, saveDb (db\<lparr>ownPlaces := AList.delete k (ownPlaces db)\<rparr>))
                    else (Deleted k, proto, store'))))"

text \<open>
  The call statuses of the places a response returns, and of the entries stored. A
  returned place or a stored entry without a status counts with the status undefined.
\<close>

definition statusOfReturned :: "returned \<Rightarrow> jsvalue list" where
  "statusOfReturned r = (case r of PlaceRecord p \<Rightarrow> [JString (callStatus p)]
     | PrototypeJson None \<Rightarrow> [JUndefined] | PrototypeJson (Some s) \<Rightarrow> [JString s]
     | NoJson \<Rightarrow> [] | TextJson s \<Rightarrow> [JUndefined])"

definition returnedStatuses :: "placesResponse \<Rightarrow> jsvalue list" where
  "returnedStatuses resp = (case resp of Listing ks ps \<Rightarrow> map (\<lambda>p. JString (callStatus p)) ps
     | Posted k r \<Rightarrow> statusOfReturned r | Patched r \<Rightarrow> statusOfReturned r
     | Deleted k \<Rightarrow> [] | Failure status message \<Rightarrow> [])"

definition storedStatuses :: "placesFile \<Rightarrow> jsvalue list" where
  "storedStatuses store = (case store of Unreadable \<Rightarrow> [] | Document None \<Rightarrow> []
     | Document (Some es) \<Rightarrow> map (\<lambda>(k, v). r_callStatus (fieldsOf v)) es)"

definition storedOk :: "placesFile \<Rightarrow> bool" where
  "storedOk store = list_all isCallStatus (storedStatuses store)"

definition returnedOk :: "placesResponse \<Rightarrow> bool" where
  "returnedOk resp = list_all isCallStatus (returnedStatuses resp)"

definition rejected :: "placesResponse \<Rightarrow> bool" where
  "rejected resp = (case resp of Failure status message \<Rightarrow> status = 400 \<or> status = 500 | _ \<Rightarrow> False)"

definition dbOk :: "placesObject \<Rightarrow> bool" where
  "dbOk db \<longleftrightarrow> list_all (\<lambda>(k, p). isCallStatus (JString (callStatus p))) (ownPlaces db)
     \<and> (case prototypePlace db of None \<Rightarrow> True | Some p \<Rightarrow> isCallStatus (JString (callStatus p)))"

text \<open>
  A handler run is in order when every place it returns carries one of the six
  statuses, and the file it leaves holds only such entries or is the file it found,
  the request having been turned away (status 400 or 500) before the store was opened.
\<close>

definition opOk :: "placesFile \<Rightarrow> placesResponse \<times> string option \<times> placesFile \<Rightarrow> bool" where
  "opOk store result =
     (returnedOk (fst result)
      \<and> (storedOk (snd (snd result)) \<or> snd (snd result) = store \<and> rejected (fst result)))"

section \<open>Concrete requests\<close>

text \<open>
  An environment with no variable set, in a zone at UTC, and a query with no parameter.
  The instant 1764460800000 is 2025-11-30T00:00:00Z.
\<close>

definition envUnset :: environment where
  "envUnset = \<lparr>AVAILABILITY_START_HOUR = None, AVAILABILITY_END_HOUR = None,
     AVAILABILITY_SLOT_MINUTES = None, AVAILABILITY_DURATION_MINUTES = None,
     AVAILABILITY_HORIZON_DAYS = None, AVAILABILITY_MAX_SLOTS = None,
     AVAILABILITY_LEAD_TIME_MINUTES = None, utcOffsetMs = 0\<rparr>"

definition queryNone :: query where
  "queryNone = \<lparr>q_durationMinutes = None, q_slotMinutes = None, q_days = None,
     q_limit = None, q_leadTimeMinutes = None\<rparr>"

definition quietWorld :: world where
  "quietWorld = \<lparr>listMeetings = Inr [], fetchNotionEvents = Inr []\<rparr>"

text \<open>
  A meeting from 2025-11-30T22:00Z to 2025-12-01T09:00Z, asked about at
  2025-11-30T20:30Z: one slot of an hour, candidates every two hours, two days.
\<close>

definition overnightMeeting :: meeting where
  "overnightMeeting = \<lparr>m_title = ''Overnight'', m_scheduledAt = Iso 1764540000000,
     m_endAt = Iso 1764579600000\<rparr>"

definition overnightWorld :: world where
  "overnightWorld = \<lparr>listMeetings = Inr [overnightMeeting], fetchNotionEvents = Inr []\<rparr>"

definition overnightQuery :: query where
  "overnightQuery = \<lparr>q_durationMinutes = Some (Num 60), q_slotMinutes = Some (Num 120),
     q_days = Some (Num 2), q_limit = Some (Num 1), q_leadTimeMinutes = None\<rparr>"



text \<open>The query \<open>limit=1.5&slotMinutes=120&days=1\<close>.\<close>

definition fractionalLimitQuery :: query where
  "fractionalLimitQuery = \<lparr>q_durationMinutes = None, q_slotMinutes = Some (Num 120),
     q_days = Some (Num 1), q_limit = Some (Num (3 / 2)), q_leadTimeMinutes = None\<rparr>"

text \<open>The query \<open>durationMinutes=60&slotMinutes=120&days=2\<close>.\<close>

definition twoDayQuery :: query where
  "twoDayQuery = \<lparr>q_durationMinutes = Some (Num 60), q_slotMinutes = Some (Num 120),
     q_days = Some (Num 2), q_limit = None, q_leadTimeMinutes = None\<rparr>"

text \<open>A store file holding a status outside the six, and one holding a place without a status.\<close>

definition dirtyFile :: placesFile where
  "dirtyFile = Document (Some [(''cafe|'', Some \<lparr>r_name = Some ''Cafe'', r_phoneNumber = None,
     r_websiteUri = None, r_websiteCategory = Some ''none'', r_callStatus = JString ''Maybe''\<rparr>)])"

definition bareFile :: placesFile where
  "bareFile = Document (Some [(''cafe|'', Some \<lparr>r_name = Some ''Cafe'', r_phoneNumber = None,
     r_websiteUri = None, r_websiteCategory = Some ''none'', r_callStatus = JUndefined\<rparr>)])"

section \<open>Time arithmetic\<close>

lemma timeClip_gt: "v - 1 < of_int (timeClip v)"
  unfolding timeClip_def by (auto simp: less_ceiling_iff) linarith+

lemma timeClip_lt: "of_int (timeClip v) < v + 1"
  unfolding timeClip_def by (auto) linarith+

lemma addMinutes_gt: "1 \<le> m * 60000 \<Longrightarrow> date < addMinutes date m"
proof -
  assume m: "1 \<le> m * 60000"
  have "of_int date + m * 60 * 1000 - 1 < (of_int (addMinutes date m) :: rat)"
    unfolding addMinutes_def by (rule timeClip_gt)
  with m have "(of_int date :: rat) < of_int (addMinutes date m)"
    by simp
  then show ?thesis
    by (simp only: of_int_less_iff)
qed

lemma scanDay_induct_rule:
  assumes step: "5 \<le> slotMinutes cfg"
    and ih: "\<And>cursor slots. (\<And>slots'. cursor < workEnd \<Longrightarrow> P (addMinutes cursor (slotMinutes cfg)) slots')
               \<Longrightarrow> P cursor slots"
  shows "P cursor slots"
proof (induction "nat (workEnd - cursor)" arbitrary: cursor slots rule: less_induct)
  case less
  show ?case
  proof (rule ih)
    fix slots'
    assume lt: "cursor < workEnd"
    from step have "cursor < addMinutes cursor (slotMinutes cfg)"
      by (intro addMinutes_gt) simp
    with lt have "nat (workEnd - addMinutes cursor (slotMinutes cfg)) < nat (workEnd - cursor)"
      by simp
    then show "P (addMinutes cursor (slotMinutes cfg)) slots'"
      by (rule less)
  qed
qed

lemma timeClip_mono:
  assumes "v \<le> w"
  shows "timeClip v \<le> timeClip w"
proof (cases "v < 0")
  case neg: True
  show ?thesis
  proof (cases "w < 0")
    case True
    with neg assms show ?thesis
      by (simp add: timeClip_def ceiling_mono)
  next
    case False
    from neg have "\<lceil>v\<rceil> \<le> 0"
      by (simp add: ceiling_le_zero)
    moreover from False have "0 \<le> \<lfloor>w\<rfloor>"
      by simp
    ultimately have "\<lceil>v\<rceil> \<le> \<lfloor>w\<rfloor>"
      by (rule order_trans)
    with neg False show ?thesis
      by (simp add: timeClip_def)
  qed
next
  case False
  with assms have "\<not> w < 0"
    by simp
  with False assms show ?thesis
    by (simp add: timeClip_def floor_mono)
qed



section \<open>The walk through one day\<close>

lemma scanDay_terminates:
  assumes step: "5 \<le> slotMinutes cfg"
  shows "\<exists>r. scanDay cfg workEnd earliest bucket cursor slots = Some r"
proof (induction cursor slots rule: scanDay_induct_rule [OF step, where workEnd = workEnd])
  case (1 cursor slots)
  show ?case
    by (subst scanDay.simps) (use 1 in auto)
qed

lemma scanDay_new:
  assumes step: "5 \<le> slotMinutes cfg"
  shows "scanDay cfg workEnd earliest bucket cursor slots = Some r \<Longrightarrow>
         \<exists>new. r = slots @ new
           \<and> list_all (\<lambda>s. cursor \<le> slot_start s \<and> slotOk cfg workEnd earliest bucket s) new
           \<and> ascending new"
proof (induction cursor slots arbitrary: r rule: scanDay_induct_rule [OF step, where workEnd = workEnd])
  case (1 cursor slots)
  let ?next = "addMinutes cursor (slotMinutes cfg)"
  let ?s = "\<lparr>slot_start = cursor, slot_end = addMinutes cursor (durationMinutes cfg),
             slot_durationMinutes = durationMinutes cfg\<rparr>"
  have adv: "cursor < ?next"
    using step by (intro addMinutes_gt) simp
  note run = "1.prems" [unfolded scanDay.simps [of cfg workEnd earliest bucket cursor slots]]
  show ?case
  proof (cases "cursor < workEnd \<and> of_nat (length slots) < slotLimit cfg")
    case False
    with run have "r = slots" by (simp split: if_splits)
    then show ?thesis by (simp add: ascending_def)
  next
    case guard: True
    show ?thesis
    proof (cases "addMinutes cursor (durationMinutes cfg) > workEnd")
      case True
      with run guard have "r = slots" by simp
      then show ?thesis by (simp add: ascending_def)
    next
      case fits: False
      show ?thesis
      proof (cases "cursor < earliest \<or> overlaps cursor (addMinutes cursor (durationMinutes cfg)) bucket")
        case True
        with run guard fits have "scanDay cfg workEnd earliest bucket ?next slots = Some r"
          by (auto split: if_splits)
        with guard obtain new where new: "r = slots @ new"
            "list_all (\<lambda>s. ?next \<le> slot_start s \<and> slotOk cfg workEnd earliest bucket s) new"
            "ascending new"
          using "1.IH" by blast
        from new(2) adv have "list_all (\<lambda>s. cursor \<le> slot_start s \<and> slotOk cfg workEnd earliest bucket s) new"
          by (auto simp: list_all_iff)
        with new show ?thesis by blast
      next
        case False
        with run guard fits have "scanDay cfg workEnd earliest bucket ?next (slots @ [?s]) = Some r"
          by (auto split: if_splits)
        with guard obtain new where new: "r = (slots @ [?s]) @ new"
            "list_all (\<lambda>s. ?next \<le> slot_start s \<and> slotOk cfg workEnd earliest bucket s) new"
            "ascending new"
          using "1.IH" by blast
        have ok: "slotOk cfg workEnd earliest bucket ?s"
          using guard fits False by (simp add: slotOk_def)
        have "list_all (\<lambda>s. cursor \<le> slot_start s \<and> slotOk cfg workEnd earliest bucket s) (?s # new)"
          using new(2) adv ok by (auto simp: list_all_iff)
        moreover have "ascending (?s # new)"
          using new(2,3) adv by (auto simp: ascending_def list_all_iff)
        moreover have "r = slots @ (?s # new)"
          using new(1) by simp
        ultimately show ?thesis by blast
      qed
    qed
  qed
qed

lemma scanDay_skip:
  assumes step: "5 \<le> slotMinutes cfg" and past: "workEnd \<le> earliest"
  shows "scanDay cfg workEnd earliest bucket cursor slots = Some slots"
proof (induction cursor slots rule: scanDay_induct_rule [OF step, where workEnd = workEnd])
  case (1 cursor slots)
  show ?case
    by (subst scanDay.simps) (use 1 past in auto)
qed

lemma scanDay_length:
  assumes step: "5 \<le> slotMinutes cfg"
  shows "scanDay cfg workEnd earliest bucket cursor slots = Some r \<Longrightarrow>
         of_nat (length slots) < slotLimit cfg + 1 \<Longrightarrow> of_nat (length r) < slotLimit cfg + 1"
proof (induction cursor slots arbitrary: r rule: scanDay_induct_rule [OF step, where workEnd = workEnd])
  case (1 cursor slots)
  note run = "1.prems"(1) [unfolded scanDay.simps [of cfg workEnd earliest bucket cursor slots]]
  show ?case
  proof (cases "cursor < workEnd \<and> of_nat (length slots) < slotLimit cfg")
    case False
    with run have "r = slots" by (simp split: if_splits)
    with "1.prems"(2) show ?thesis by simp
  next
    case guard: True
    from run guard "1.prems"(2) "1.IH" show ?thesis
      by (auto split: if_splits)
  qed
qed

lemma scanDay_cap:
  assumes step: "5 \<le> slotMinutes cfg" and cap: "slotLimit cfg \<le> L"
  shows "scanDay cfg workEnd earliest bucket cursor slots = Some r \<Longrightarrow>
         of_nat (length r) < slotLimit cfg \<Longrightarrow>
         scanDay (cfg\<lparr>slotLimit := L\<rparr>) workEnd earliest bucket cursor slots = Some r"
proof (induction cursor slots arbitrary: r rule: scanDay_induct_rule [OF step, where workEnd = workEnd])
  case (1 cursor slots)
  note run = "1.prems"(1) [unfolded scanDay.simps [of cfg workEnd earliest bucket cursor slots]]
  from scanDay_new [OF step "1.prems"(1)] have "length slots \<le> length r"
    by auto
  with "1.prems"(2) have room: "of_nat (length slots) < slotLimit cfg"
    by (meson le_less_trans of_nat_le_iff)
  with cap have room': "of_nat (length slots) < L"
    by simp
  show ?case
  proof (cases "cursor < workEnd")
    case False
    with run have "r = slots" by (simp split: if_splits)
    with False show ?thesis by (subst scanDay.simps) simp
  next
    case True
    with run room room' "1.prems"(2) "1.IH" show ?thesis
      by (subst scanDay.simps) (auto split: if_splits)
  qed
qed

section \<open>The walk through the horizon\<close>

lemma dayLoop_terminates:
  "5 \<le> slotMinutes cfg \<Longrightarrow> \<exists>r. dayLoop env now cfg byDay earliest dayOffset slots = Some r"
proof (induction env now cfg byDay earliest dayOffset slots rule: dayLoop.induct)
  case (1 env now cfg byDay earliest dayOffset slots)
  note step = "1.prems"
  obtain s' where s': "scanDay cfg (workEndOf env now dayOffset) earliest
      (bucketOf byDay (dayKey (utcOffsetMs env) (dayStartOf env now dayOffset)))
      (workStartOf env now dayOffset) slots = Some s'"
    using scanDay_terminates [OF step] by blast
  show ?case
    by (subst dayLoop.simps) (use 1 s' in auto)
qed

lemma dayLoop_eq_scanAll:
  "5 \<le> slotMinutes cfg \<Longrightarrow>
   dayLoop env now cfg byDay earliest dayOffset slots
     = dayLoopScanAll env now cfg byDay earliest dayOffset slots"
proof (induction env now cfg byDay earliest dayOffset slots rule: dayLoop.induct)
  case (1 env now cfg byDay earliest dayOffset slots)
  note step = "1.prems"
  show ?case
  proof (cases "of_nat dayOffset < horizonDays cfg \<and> of_nat (length slots) < slotLimit cfg")
    case False
    then show ?thesis
      by (subst dayLoop.simps, subst dayLoopScanAll.simps) auto
  next
    case guard: True
    show ?thesis
    proof (cases "workEndOf env now dayOffset \<le> earliest \<and> dayEndOf env now dayOffset \<le> earliest")
      case True
      then have "scanDay cfg (workEndOf env now dayOffset) earliest
          (bucketOf byDay (dayKey (utcOffsetMs env) (dayStartOf env now dayOffset)))
          (workStartOf env now dayOffset) slots = Some slots"
        using scanDay_skip [OF step] by blast
      with guard True "1.IH"(1) step show ?thesis
        by (subst dayLoop.simps, subst dayLoopScanAll.simps) simp
    next
      case False
      with guard "1.IH"(2) step show ?thesis
        by (subst dayLoop.simps, subst dayLoopScanAll.simps) (auto split: option.splits)
    qed
  qed
qed

lemma dayLoop_unfold_Some:
  assumes "dayLoop env now cfg byDay earliest dayOffset slots = Some r"
  shows "(\<not> (of_nat dayOffset < horizonDays cfg \<and> of_nat (length slots) < slotLimit cfg) \<and> r = slots)
       \<or> (of_nat dayOffset < horizonDays cfg \<and> of_nat (length slots) < slotLimit cfg
           \<and> workEndOf env now dayOffset \<le> earliest \<and> dayEndOf env now dayOffset \<le> earliest
           \<and> dayLoop env now cfg byDay earliest (Suc dayOffset) slots = Some r)
       \<or> (of_nat dayOffset < horizonDays cfg \<and> of_nat (length slots) < slotLimit cfg
           \<and> \<not> (workEndOf env now dayOffset \<le> earliest \<and> dayEndOf env now dayOffset \<le> earliest)
           \<and> (\<exists>s'. scanDay cfg (workEndOf env now dayOffset) earliest
                      (bucketOf byDay (dayKey (utcOffsetMs env) (dayStartOf env now dayOffset)))
                      (workStartOf env now dayOffset) slots = Some s'
                  \<and> dayLoop env now cfg byDay earliest (Suc dayOffset) s' = Some r))"
  using assms [unfolded dayLoop.simps [of env now cfg byDay earliest dayOffset slots]]
  by (auto split: if_splits option.splits)

lemma dayLoop_new:
  "5 \<le> slotMinutes cfg \<Longrightarrow> dayLoop env now cfg byDay earliest dayOffset slots = Some r \<Longrightarrow>
   \<exists>new. r = slots @ new
     \<and> list_all (\<lambda>s. \<exists>day. dayOffset \<le> day \<and> of_nat day < horizonDays cfg
                     \<and> slotOnDay env now cfg byDay earliest day s) new"
proof (induction env now cfg byDay earliest dayOffset slots arbitrary: r rule: dayLoop.induct)
  case (1 env now cfg byDay earliest dayOffset slots)
  note step = "1.prems"(1)
  let ?P = "\<lambda>d s. \<exists>day. d \<le> day \<and> of_nat day < horizonDays cfg \<and> slotOnDay env now cfg byDay earliest day s"
  have weaken: "list_all (?P (Suc dayOffset)) xs \<Longrightarrow> list_all (?P dayOffset) xs" for xs
    by (auto simp: list_all_iff intro: Suc_leD)
  from dayLoop_unfold_Some [OF "1.prems"(2)]
  consider (stop) "r = slots"
    | (skip) "of_nat dayOffset < horizonDays cfg" "of_nat (length slots) < slotLimit cfg"
        "workEndOf env now dayOffset \<le> earliest \<and> dayEndOf env now dayOffset \<le> earliest"
        "dayLoop env now cfg byDay earliest (Suc dayOffset) slots = Some r"
    | (scan) s' where "of_nat dayOffset < horizonDays cfg" "of_nat (length slots) < slotLimit cfg"
        "\<not> (workEndOf env now dayOffset \<le> earliest \<and> dayEndOf env now dayOffset \<le> earliest)"
        "scanDay cfg (workEndOf env now dayOffset) earliest
           (bucketOf byDay (dayKey (utcOffsetMs env) (dayStartOf env now dayOffset)))
           (workStartOf env now dayOffset) slots = Some s'"
        "dayLoop env now cfg byDay earliest (Suc dayOffset) s' = Some r"
    by blast
  then show ?case
  proof cases
    case stop
    then show ?thesis by simp
  next
    case skip
    with "1.IH"(1) [OF _ _ step] obtain new where "r = slots @ new" "list_all (?P (Suc dayOffset)) new"
      by blast
    with weaken show ?thesis by blast
  next
    case scan
    from scanDay_new [OF step scan(4)] obtain new1 where new1: "s' = slots @ new1"
        "list_all (\<lambda>s. workStartOf env now dayOffset \<le> slot_start s
            \<and> slotOk cfg (workEndOf env now dayOffset) earliest
                 (bucketOf byDay (dayKey (utcOffsetMs env) (dayStartOf env now dayOffset))) s) new1"
      by blast
    from "1.IH"(2) [OF _ _ scan(4) step scan(5)] scan(1,2,3)
    obtain new2 where new2: "r = s' @ new2" "list_all (?P (Suc dayOffset)) new2"
      by blast
    have "list_all (?P dayOffset) new1"
      using new1(2) scan(1) by (auto simp: list_all_iff slotOnDay_def)
    with weaken [OF new2(2)] have "list_all (?P dayOffset) (new1 @ new2)"
      by simp
    moreover have "r = slots @ (new1 @ new2)"
      using new1(1) new2(1) by simp
    ultimately show ?thesis by blast
  qed
qed





lemma dayLoop_length:
  "5 \<le> slotMinutes cfg \<Longrightarrow> dayLoop env now cfg byDay earliest dayOffset slots = Some r \<Longrightarrow>
   of_nat (length slots) < slotLimit cfg + 1 \<Longrightarrow> of_nat (length r) < slotLimit cfg + 1"
proof (induction env now cfg byDay earliest dayOffset slots arbitrary: r rule: dayLoop.induct)
  case (1 env now cfg byDay earliest dayOffset slots)
  note step = "1.prems"(1)
  from dayLoop_unfold_Some [OF "1.prems"(2)]
  consider (stop) "r = slots"
    | (skip) "of_nat dayOffset < horizonDays cfg" "of_nat (length slots) < slotLimit cfg"
        "workEndOf env now dayOffset \<le> earliest \<and> dayEndOf env now dayOffset \<le> earliest"
        "dayLoop env now cfg byDay earliest (Suc dayOffset) slots = Some r"
    | (scan) s' where "of_nat dayOffset < horizonDays cfg" "of_nat (length slots) < slotLimit cfg"
        "\<not> (workEndOf env now dayOffset \<le> earliest \<and> dayEndOf env now dayOffset \<le> earliest)"
        "scanDay cfg (workEndOf env now dayOffset) earliest
           (bucketOf byDay (dayKey (utcOffsetMs env) (dayStartOf env now dayOffset)))
           (workStartOf env now dayOffset) slots = Some s'"
        "dayLoop env now cfg byDay earliest (Suc dayOffset) s' = Some r"
    by blast
  then show ?case
  proof cases
    case stop
    with "1.prems"(3) show ?thesis by simp
  next
    case skip
    with "1.IH"(1) [OF _ _ step _ "1.prems"(3)] show ?thesis by blast
  next
    case scan
    from scanDay_length [OF step scan(4) "1.prems"(3)]
    have "of_nat (length s') < slotLimit cfg + 1" .
    with "1.IH"(2) [OF _ _ scan(4) step scan(5)] scan(1,2,3) show ?thesis by blast
  qed
qed

lemma dayLoop_cap:
  "5 \<le> slotMinutes cfg \<Longrightarrow> slotLimit cfg \<le> L \<Longrightarrow>
   dayLoop env now cfg byDay earliest dayOffset slots = Some r \<Longrightarrow>
   of_nat (length r) < slotLimit cfg \<Longrightarrow>
   dayLoop env now (cfg\<lparr>slotLimit := L\<rparr>) byDay earliest dayOffset slots = Some r"
proof (induction env now cfg byDay earliest dayOffset slots arbitrary: r rule: dayLoop.induct)
  case (1 env now cfg byDay earliest dayOffset slots)
  note step = "1.prems"(1) and cap = "1.prems"(2) and short = "1.prems"(4)
  from dayLoop_new [OF step "1.prems"(3)] have "length slots \<le> length r"
    by auto
  with short have room: "of_nat (length slots) < slotLimit cfg"
    by (meson le_less_trans of_nat_le_iff)
  with cap have room': "of_nat (length slots) < L"
    by simp
  from dayLoop_unfold_Some [OF "1.prems"(3)]
  consider (stop) "\<not> of_nat dayOffset < horizonDays cfg" "r = slots"
    | (skip) "of_nat dayOffset < horizonDays cfg" "of_nat (length slots) < slotLimit cfg"
        "workEndOf env now dayOffset \<le> earliest \<and> dayEndOf env now dayOffset \<le> earliest"
        "dayLoop env now cfg byDay earliest (Suc dayOffset) slots = Some r"
    | (scan) s' where "of_nat dayOffset < horizonDays cfg" "of_nat (length slots) < slotLimit cfg"
        "\<not> (workEndOf env now dayOffset \<le> earliest \<and> dayEndOf env now dayOffset \<le> earliest)"
        "scanDay cfg (workEndOf env now dayOffset) earliest
           (bucketOf byDay (dayKey (utcOffsetMs env) (dayStartOf env now dayOffset)))
           (workStartOf env now dayOffset) slots = Some s'"
        "dayLoop env now cfg byDay earliest (Suc dayOffset) s' = Some r"
    using room by blast
  then show ?case
  proof cases
    case stop
    then show ?thesis
      by (subst dayLoop.simps) simp
  next
    case skip
    from "1.IH"(1) [OF _ _ step cap skip(4) short] skip(1,2,3)
    have "dayLoop env now (cfg\<lparr>slotLimit := L\<rparr>) byDay earliest (Suc dayOffset) slots = Some r"
      by blast
    with skip room' show ?thesis
      by (subst dayLoop.simps) simp
  next
    case scan
    from dayLoop_new [OF step scan(5)] have "length s' \<le> length r"
      by auto
    with short have "of_nat (length s') < slotLimit cfg"
      by (meson le_less_trans of_nat_le_iff)
    from scanDay_cap [OF step cap scan(4) this]
    have day: "scanDay (cfg\<lparr>slotLimit := L\<rparr>) (workEndOf env now dayOffset) earliest
           (bucketOf byDay (dayKey (utcOffsetMs env) (dayStartOf env now dayOffset)))
           (workStartOf env now dayOffset) slots = Some s'" .
    from "1.IH"(2) [OF _ _ scan(4) step cap scan(5) short] scan(1,2,3)
    have "dayLoop env now (cfg\<lparr>slotLimit := L\<rparr>) byDay earliest (Suc dayOffset) s' = Some r"
      by blast
    with scan day room' show ?thesis
      by (subst dayLoop.simps) auto
  qed
qed

section \<open>Buckets, resolved parameters and the handler\<close>

lemma resolve_range: "mn \<le> mx \<Longrightarrow> mn \<le> resolve raw mn mx dflt \<and> resolve raw mn mx dflt \<le> mx"
  by (auto simp: resolve_def clampNumber_def orElse_def Number_of_def split: jsnum.splits option.splits)

lemma slotMinutes_resolved: "5 \<le> slotMinutes (resolveParams env q)"
  using resolve_range [of 5 120] by (simp add: resolveParams_def)

lemma slotLimit_resolved: "1 \<le> slotLimit (resolveParams env q)"
  using resolve_range [of 1 200] by (simp add: resolveParams_def)

lemma bucketOf_foldl:
  "bucketOf (foldl (bucketInsert tz) byDay intervals) k
     = bucketOf byDay k @ filter (\<lambda>i. dayKey tz (iv_start i) = k) intervals"
proof (induction intervals arbitrary: byDay)
  case Nil
  show ?case by simp
next
  case (Cons i intervals)
  have "bucketOf (bucketInsert tz byDay i) k
          = bucketOf byDay k @ (if dayKey tz (iv_start i) = k then [i] else [])"
    by (simp add: bucketInsert_def bucketOf_def Let_def split: option.splits)
  with Cons.IH [of "bucketInsert tz byDay i"] show ?case
    by simp
qed

lemma bucketOf_intervalsByDay:
  "bucketOf (intervalsByDay tz intervals) k = filter (\<lambda>i. dayKey tz (iv_start i) = k) intervals"
  by (simp add: intervalsByDay_def bucketOf_foldl) (simp add: bucketOf_def)

lemma overlaps_iff: "overlaps s e intervals \<longleftrightarrow> (\<exists>i\<in>set intervals. s < iv_end i \<and> iv_start i < e)"
  by (auto simp: overlaps_def list_ex_iff)

lemma generateSlots_returns: "\<exists>r. generateSlots env now (resolveParams env q) intervals = Some r"
  unfolding generateSlots_def by (rule dayLoop_terminates) (rule slotMinutes_resolved)

lemma GET_cases:
  obtains (config) "DEFAULT_WORK_END_HOUR env \<le> DEFAULT_WORK_START_HOUR env"
      "GET env now q w = Some (JsonError 500 ''Invalid availability hours configuration'', [])"
  | (meetings) message fx where "DEFAULT_WORK_START_HOUR env < DEFAULT_WORK_END_HOUR env"
      "buildBusyIntervals w = (Inl message, fx)"
      "GET env now q w = Some (JsonError 500 message, fx @ [ConsoleError ''Availability error:'' message])"
  | (slots) intervals fx slots where "DEFAULT_WORK_START_HOUR env < DEFAULT_WORK_END_HOUR env"
      "buildBusyIntervals w = (Inr intervals, fx)"
      "generateSlots env now (resolveParams env q) intervals = Some slots"
      "GET env now q w = Some (Json200 \<lparr>generatedAt = now,
          p_horizonDays = horizonDays (resolveParams env q),
          p_slotMinutes = slotMinutes (resolveParams env q),
          p_durationMinutes = durationMinutes (resolveParams env q), p_slots = slots\<rparr>, fx)"
proof (cases "DEFAULT_WORK_END_HOUR env \<le> DEFAULT_WORK_START_HOUR env")
  case True
  then show ?thesis
    by (intro config) (simp_all add: GET_def Let_def)
next
  case False
  obtain res fx where b: "buildBusyIntervals w = (res, fx)"
    by (cases "buildBusyIntervals w")
  show ?thesis
  proof (cases res)
    case (Inl message)
    with False b show ?thesis
      by (intro meetings [of message fx]) (simp_all add: GET_def Let_def)
  next
    case (Inr intervals)
    obtain r where "generateSlots env now (resolveParams env q) intervals = Some r"
      using generateSlots_returns by blast
    with False b Inr show ?thesis
      by (intro slots [of intervals fx r]) (simp_all add: GET_def Let_def)
  qed
qed

section \<open>The walk leaves out no acceptable candidate\<close>

lemma addMinutes_mono: "c \<le> c' \<Longrightarrow> addMinutes c m \<le> addMinutes c' m"
  unfolding addMinutes_def by (rule timeClip_mono) simp

lemma cursorAt_shift:
  "cursorAt cfg start (Suc k) = cursorAt cfg (addMinutes start (slotMinutes cfg)) k"
  by (induction k) simp_all

lemma cursorAt_ge: "5 \<le> slotMinutes cfg \<Longrightarrow> start \<le> cursorAt cfg start k"
proof (induction k)
  case 0
  show ?case by simp
next
  case (Suc k)
  have "cursorAt cfg start k < addMinutes (cursorAt cfg start k) (slotMinutes cfg)"
    using Suc.prems by (intro addMinutes_gt) simp
  with Suc show ?case by simp
qed

lemma scanDay_complete:
  assumes step: "5 \<le> slotMinutes cfg"
  shows "scanDay cfg workEnd earliest bucket cursor slots = Some r \<Longrightarrow>
         of_nat (length r) < slotLimit cfg \<Longrightarrow>
         acceptable cfg workEnd earliest bucket (cursorAt cfg cursor k) \<Longrightarrow>
         candidateAt cfg (cursorAt cfg cursor k) \<in> set r"
proof (induction cursor slots arbitrary: r k rule: scanDay_induct_rule [OF step, where workEnd = workEnd])
  case (1 cursor slots)
  let ?next = "addMinutes cursor (slotMinutes cfg)"
  note run = "1.prems"(1) [unfolded scanDay.simps [of cfg workEnd earliest bucket cursor slots]]
  from scanDay_new [OF step "1.prems"(1)] have "length slots \<le> length r"
    by auto
  with "1.prems"(2) have room: "of_nat (length slots) < slotLimit cfg"
    by (meson le_less_trans of_nat_le_iff)
  have at: "cursor \<le> cursorAt cfg cursor k"
    by (rule cursorAt_ge [OF step])
  from "1.prems"(3) have inside: "cursorAt cfg cursor k < workEnd"
    and fits: "addMinutes (cursorAt cfg cursor k) (durationMinutes cfg) \<le> workEnd"
    by (simp_all add: acceptable_def)
  from at inside have lt: "cursor < workEnd"
    by simp
  from addMinutes_mono [OF at] fits
  have fit0: "\<not> addMinutes cursor (durationMinutes cfg) > workEnd"
    by (meson le_less_trans not_le order_trans)
  show ?case
  proof (cases k)
    case 0
    with "1.prems"(3) have ok: "\<not> cursor < earliest"
        "\<not> overlaps cursor (addMinutes cursor (durationMinutes cfg)) bucket"
      by (simp_all add: acceptable_def)
    with run lt room fit0
    have next_run: "scanDay cfg workEnd earliest bucket ?next (slots @ [candidateAt cfg cursor]) = Some r"
      by (simp add: candidateAt_def)
    from scanDay_new [OF step next_run] have "candidateAt cfg cursor \<in> set r"
      by auto
    with 0 show ?thesis by simp
  next
    case (Suc k')
    then have pos: "cursorAt cfg cursor k = cursorAt cfg ?next k'"
      by (simp only: cursorAt_shift)
    from run lt room fit0 obtain slots' where
      "scanDay cfg workEnd earliest bucket ?next slots' = Some r"
      by (auto split: if_splits)
    from "1.IH" [OF lt this "1.prems"(2), of k'] "1.prems"(3) pos show ?thesis
      by simp
  qed
qed

lemma scanDay_sound_at:
  assumes step: "5 \<le> slotMinutes cfg"
  shows "scanDay cfg workEnd earliest bucket cursor slots = Some r \<Longrightarrow>
         \<exists>new. r = slots @ new
           \<and> list_all (\<lambda>s. \<exists>k. acceptable cfg workEnd earliest bucket (cursorAt cfg cursor k)
                              \<and> s = candidateAt cfg (cursorAt cfg cursor k)) new"
proof (induction cursor slots arbitrary: r rule: scanDay_induct_rule [OF step, where workEnd = workEnd])
  case (1 cursor slots)
  let ?next = "addMinutes cursor (slotMinutes cfg)"
  let ?P = "\<lambda>c s. \<exists>k. acceptable cfg workEnd earliest bucket (cursorAt cfg c k)
                              \<and> s = candidateAt cfg (cursorAt cfg c k)"
  note run = "1.prems" [unfolded scanDay.simps [of cfg workEnd earliest bucket cursor slots]]
  have shift: "list_all (?P ?next) xs \<Longrightarrow> list_all (?P cursor) xs" for xs
  proof -
    assume a: "list_all (?P ?next) xs"
    have "?P cursor s" if "?P ?next s" for s
    proof -
      from that obtain k where "acceptable cfg workEnd earliest bucket (cursorAt cfg ?next k)"
          "s = candidateAt cfg (cursorAt cfg ?next k)"
        by blast
      then have "acceptable cfg workEnd earliest bucket (cursorAt cfg cursor (Suc k))
          \<and> s = candidateAt cfg (cursorAt cfg cursor (Suc k))"
        by (simp only: cursorAt_shift)
      then show ?thesis by blast
    qed
    with a show ?thesis by (simp add: list_all_iff)
  qed
  show ?case
  proof (cases "cursor < workEnd \<and> of_nat (length slots) < slotLimit cfg")
    case False
    with run have "r = slots" by (simp split: if_splits)
    then show ?thesis by simp
  next
    case guard: True
    show ?thesis
    proof (cases "addMinutes cursor (durationMinutes cfg) > workEnd")
      case True
      with run guard have "r = slots" by simp
      then show ?thesis by simp
    next
      case fits: False
      show ?thesis
      proof (cases "cursor < earliest \<or> overlaps cursor (addMinutes cursor (durationMinutes cfg)) bucket")
        case True
        with run guard fits have "scanDay cfg workEnd earliest bucket ?next slots = Some r"
          by (auto split: if_splits)
        with guard obtain new where "r = slots @ new" "list_all (?P ?next) new"
          using "1.IH" by blast
        with shift show ?thesis by blast
      next
        case False
        with run guard fits
        have "scanDay cfg workEnd earliest bucket ?next (slots @ [candidateAt cfg cursor]) = Some r"
          by (auto simp: candidateAt_def split: if_splits)
        with guard obtain new where new: "r = (slots @ [candidateAt cfg cursor]) @ new"
            "list_all (?P ?next) new"
          using "1.IH" by blast
        have "acceptable cfg workEnd earliest bucket (cursorAt cfg cursor 0)
            \<and> candidateAt cfg cursor = candidateAt cfg (cursorAt cfg cursor 0)"
          using guard fits False by (simp add: acceptable_def)
        then have "?P cursor (candidateAt cfg cursor)"
          by blast
        with shift [OF new(2)] have "list_all (?P cursor) (candidateAt cfg cursor # new)"
          by simp
        moreover have "r = slots @ (candidateAt cfg cursor # new)"
          using new(1) by simp
        ultimately show ?thesis by blast
      qed
    qed
  qed
qed

lemma dayLoop_complete:
  "5 \<le> slotMinutes cfg \<Longrightarrow> dayLoop env now cfg byDay earliest dayOffset slots = Some r \<Longrightarrow>
   of_nat (length r) < slotLimit cfg \<Longrightarrow> dayOffset \<le> day \<Longrightarrow> of_nat day < horizonDays cfg \<Longrightarrow>
   acceptable cfg (workEndOf env now day) earliest
     (bucketOf byDay (dayKey (utcOffsetMs env) (dayStartOf env now day)))
     (cursorAt cfg (workStartOf env now day) k) \<Longrightarrow>
   candidateAt cfg (cursorAt cfg (workStartOf env now day) k) \<in> set r"
proof (induction env now cfg byDay earliest dayOffset slots arbitrary: r rule: dayLoop.induct)
  case (1 env now cfg byDay earliest dayOffset slots)
  note step = "1.prems"(1) and short = "1.prems"(3) and later = "1.prems"(4)
    and inside = "1.prems"(5) and acc = "1.prems"(6)
  from dayLoop_new [OF step "1.prems"(2)] have "length slots \<le> length r"
    by auto
  with short have room: "of_nat (length slots) < slotLimit cfg"
    by (meson le_less_trans of_nat_le_iff)
  from later inside have here: "of_nat dayOffset < horizonDays cfg"
    by (meson le_less_trans of_nat_le_iff)
  from dayLoop_unfold_Some [OF "1.prems"(2)] room here
  consider (skip) "workEndOf env now dayOffset \<le> earliest \<and> dayEndOf env now dayOffset \<le> earliest"
        "dayLoop env now cfg byDay earliest (Suc dayOffset) slots = Some r"
    | (scan) s' where
        "\<not> (workEndOf env now dayOffset \<le> earliest \<and> dayEndOf env now dayOffset \<le> earliest)"
        "scanDay cfg (workEndOf env now dayOffset) earliest
           (bucketOf byDay (dayKey (utcOffsetMs env) (dayStartOf env now dayOffset)))
           (workStartOf env now dayOffset) slots = Some s'"
        "dayLoop env now cfg byDay earliest (Suc dayOffset) s' = Some r"
    by blast
  then show ?case
  proof cases
    case skip
    show ?thesis
    proof (cases "day = dayOffset")
      case True
      with acc skip(1) show ?thesis
        by (simp add: acceptable_def)
    next
      case False
      with later have "Suc dayOffset \<le> day" by simp
      from "1.IH"(1) [OF _ _ step skip(2) short this inside acc] here room skip(1)
      show ?thesis by blast
    qed
  next
    case scan
    from dayLoop_new [OF step scan(3)] obtain new2 where r: "r = s' @ new2"
      by blast
    show ?thesis
    proof (cases "day = dayOffset")
      case True
      from r have "length s' \<le> length r" by simp
      with short have "of_nat (length s') < slotLimit cfg"
        by (meson le_less_trans of_nat_le_iff)
      from scanDay_complete [OF step scan(2) this, of k] acc True r show ?thesis
        by auto
    next
      case False
      with later have "Suc dayOffset \<le> day" by simp
      from "1.IH"(2) [OF _ _ scan(2) step scan(3) short this inside acc] here room scan(1)
      show ?thesis by blast
    qed
  qed
qed

lemma dayLoop_sound_at:
  "5 \<le> slotMinutes cfg \<Longrightarrow> dayLoop env now cfg byDay earliest dayOffset slots = Some r \<Longrightarrow>
   \<exists>new. r = slots @ new
     \<and> list_all (\<lambda>s. \<exists>day k. of_nat day < horizonDays cfg
            \<and> acceptable cfg (workEndOf env now day) earliest
                 (bucketOf byDay (dayKey (utcOffsetMs env) (dayStartOf env now day)))
                 (cursorAt cfg (workStartOf env now day) k)
            \<and> s = candidateAt cfg (cursorAt cfg (workStartOf env now day) k)) new"
proof (induction env now cfg byDay earliest dayOffset slots arbitrary: r rule: dayLoop.induct)
  case (1 env now cfg byDay earliest dayOffset slots)
  note step = "1.prems"(1)
  let ?P = "\<lambda>s. \<exists>day k. of_nat day < horizonDays cfg
            \<and> acceptable cfg (workEndOf env now day) earliest
                 (bucketOf byDay (dayKey (utcOffsetMs env) (dayStartOf env now day)))
                 (cursorAt cfg (workStartOf env now day) k)
            \<and> s = candidateAt cfg (cursorAt cfg (workStartOf env now day) k)"
  from dayLoop_unfold_Some [OF "1.prems"(2)]
  consider (stop) "r = slots"
    | (skip) "of_nat dayOffset < horizonDays cfg" "of_nat (length slots) < slotLimit cfg"
        "workEndOf env now dayOffset \<le> earliest \<and> dayEndOf env now dayOffset \<le> earliest"
        "dayLoop env now cfg byDay earliest (Suc dayOffset) slots = Some r"
    | (scan) s' where "of_nat dayOffset < horizonDays cfg" "of_nat (length slots) < slotLimit cfg"
        "\<not> (workEndOf env now dayOffset \<le> earliest \<and> dayEndOf env now dayOffset \<le> earliest)"
        "scanDay cfg (workEndOf env now dayOffset) earliest
           (bucketOf byDay (dayKey (utcOffsetMs env) (dayStartOf env now dayOffset)))
           (workStartOf env now dayOffset) slots = Some s'"
        "dayLoop env now cfg byDay earliest (Suc dayOffset) s' = Some r"
    by blast
  then show ?case
  proof cases
    case stop
    then show ?thesis by simp
  next
    case skip
    with "1.IH"(1) [OF _ _ step] show ?thesis by blast
  next
    case scan
    from scanDay_sound_at [OF step scan(4)] obtain new1 where new1: "s' = slots @ new1"
        "list_all (\<lambda>s. \<exists>k. acceptable cfg (workEndOf env now dayOffset) earliest
                 (bucketOf byDay (dayKey (utcOffsetMs env) (dayStartOf env now dayOffset)))
                 (cursorAt cfg (workStartOf env now dayOffset) k)
            \<and> s = candidateAt cfg (cursorAt cfg (workStartOf env now dayOffset) k)) new1"
      by blast
    from "1.IH"(2) [OF _ _ scan(4) step scan(5)] scan(1,2,3)
    obtain new2 where new2: "r = s' @ new2" "list_all ?P new2"
      by blast
    have "list_all ?P new1"
      using new1(2) scan(1) by (auto simp: list_all_iff)
    with new2(2) have "list_all ?P (new1 @ new2)"
      by simp
    moreover have "r = slots @ (new1 @ new2)"
      using new1(1) new2(1) by simp
    ultimately show ?thesis by blast
  qed
qed

lemma generateSlots_exhausts:
  assumes run: "generateSlots env now (resolveParams env q) intervals = Some slots"
    and short: "of_nat (length slots) < slotLimit (resolveParams env q)"
  shows "s \<in> set slots \<longleftrightarrow>
     (\<exists>day k. of_nat day < horizonDays (resolveParams env q)
        \<and> acceptableOn env now (resolveParams env q) intervals day k
        \<and> s = candidateAt (resolveParams env q) (cursorAt (resolveParams env q) (workStartOf env now day) k))"
proof
  assume "s \<in> set slots"
  with dayLoop_sound_at [OF slotMinutes_resolved run [unfolded generateSlots_def]]
  show "\<exists>day k. of_nat day < horizonDays (resolveParams env q)
        \<and> acceptableOn env now (resolveParams env q) intervals day k
        \<and> s = candidateAt (resolveParams env q) (cursorAt (resolveParams env q) (workStartOf env now day) k)"
    by (auto simp: list_all_iff acceptableOn_def bucketOf_intervalsByDay)
next
  assume "\<exists>day k. of_nat day < horizonDays (resolveParams env q)
        \<and> acceptableOn env now (resolveParams env q) intervals day k
        \<and> s = candidateAt (resolveParams env q) (cursorAt (resolveParams env q) (workStartOf env now day) k)"
  then obtain day k where d: "of_nat day < horizonDays (resolveParams env q)"
    and a: "acceptableOn env now (resolveParams env q) intervals day k"
    and s: "s = candidateAt (resolveParams env q) (cursorAt (resolveParams env q) (workStartOf env now day) k)"
    by blast
  from a have "acceptable (resolveParams env q) (workEndOf env now day)
      (addMinutes now (minLeadMinutes (resolveParams env q)))
      (bucketOf (intervalsByDay (utcOffsetMs env) intervals)
         (dayKey (utcOffsetMs env) (dayStartOf env now day)))
      (cursorAt (resolveParams env q) (workStartOf env now day) k)"
    by (simp add: acceptableOn_def bucketOf_intervalsByDay)
  from dayLoop_complete [OF slotMinutes_resolved run [unfolded generateSlots_def] short _ d this] s
  show "s \<in> set slots" by simp
qed

section \<open>The places store keeps its statuses\<close>

lemma default_is_status: "isCallStatus (JString DEFAULT_CALL_STATUS)"
  by (simp add: isCallStatus_def DEFAULT_CALL_STATUS_def CALL_STATUSES_def)

lemma sanitize_is_status: "isCallStatus (JString (sanitizeCallStatus v))"
  by (cases v) (simp_all add: sanitizeCallStatus_def default_is_status)

lemma sanitize_keeps: "isCallStatus v \<Longrightarrow> JString (sanitizeCallStatus v) = v"
  by (cases v) (simp_all add: sanitizeCallStatus_def isCallStatus_def)

lemma sanitize_resets: "\<not> isCallStatus v \<Longrightarrow> sanitizeCallStatus v = ''Not called''"
  by (cases v) (simp_all add: sanitizeCallStatus_def DEFAULT_CALL_STATUS_def)

lemma own_update:
  "list_all (\<lambda>(k, p). isCallStatus (JString (callStatus p))) own \<Longrightarrow>
   isCallStatus (JString (callStatus p)) \<Longrightarrow>
   list_all (\<lambda>(k, p). isCallStatus (JString (callStatus p))) (AList.update k p own)"
  by (induction own) auto

lemma dbOk_update:
  "dbOk db \<Longrightarrow> isCallStatus (JString (callStatus p)) \<Longrightarrow>
   dbOk (db\<lparr>ownPlaces := AList.update k p (ownPlaces db)\<rparr>)"
  by (simp add: dbOk_def own_update)

lemma dbOk_assign:
  "dbOk db \<Longrightarrow> isCallStatus (JString (callStatus p)) \<Longrightarrow> dbOk (assignPlace db k p)"
  by (simp add: assignPlace_def dbOk_update) (simp add: dbOk_def)

lemma dbOk_delete: "dbOk db \<Longrightarrow> dbOk (db\<lparr>ownPlaces := AList.delete k (ownPlaces db)\<rparr>)"
  by (auto simp: dbOk_def list_all_iff AList.delete_eq)

lemma dbOk_lookup:
  "dbOk db \<Longrightarrow> map_of (ownPlaces db) k = Some p \<Longrightarrow> isCallStatus (JString (callStatus p))"
  by (auto simp: dbOk_def list_all_iff dest: map_of_SomeD)

lemma dbOk_prototype:
  "dbOk db \<Longrightarrow> prototypePlace db = Some p \<Longrightarrow> isCallStatus (JString (callStatus p))"
  by (simp add: dbOk_def)

lemma storedOk_saveDb: "dbOk db \<Longrightarrow> storedOk (saveDb db)"
  by (simp add: storedOk_def storedStatuses_def saveDb_def dbOk_def toRaw_def list_all_iff
      split_def fieldsOf_def)

lemma dbOk_normalized:
  "dbOk acc \<Longrightarrow>
   dbOk (foldl (\<lambda>acc (k, v). assignPlace acc k (normalizePlace proto k v)) acc entries)"
proof (induction entries arbitrary: acc)
  case Nil
  then show ?case by simp
next
  case (Cons e entries)
  obtain k v where e: "e = (k, v)" by (cases e)
  have "dbOk (assignPlace acc k (normalizePlace proto k v))"
    using Cons.prems by (intro dbOk_assign) (simp_all add: normalizePlace_def sanitize_is_status)
  from Cons.IH [OF this] e show ?case by simp
qed

text \<open>Whatever \<open>Object.prototype\<close> carries, the loaded database holds statuses of the six.\<close>

lemma ensureDb_dbOk: "dbOk (fst (ensureDb proto store))"
proof (cases store)
  case Unreadable
  then show ?thesis
    by (simp add: ensureDb_def dbOk_def emptyPlaces_def)
next
  case (Document places)
  have "dbOk emptyPlaces"
    by (simp add: dbOk_def emptyPlaces_def)
  from dbOk_normalized [OF this] Document show ?thesis
    by (simp add: ensureDb_def Let_def)
qed

text \<open>While \<open>Object.prototype\<close> carries no status, the file a load leaves is in order.\<close>

lemma ensureDb_stored: "storedOk (snd (ensureDb None store))"
proof (cases store)
  case Unreadable
  then show ?thesis
    by (simp add: ensureDb_def storedOk_def storedStatuses_def saveDb_def emptyPlaces_def)
next
  case (Document places)
  define entries where "entries = (case places of None \<Rightarrow> [] | Some es \<Rightarrow> es)"
  have clean: "storedOk store"
    if "\<not> list_ex (\<lambda>(k, v). readStatus None v \<noteq> JString (sanitizeCallStatus (readStatus None v)))
          entries"
  proof -
    have "isCallStatus (r_callStatus (fieldsOf v))" if "(k, v) \<in> set entries" for k v
    proof -
      from that \<open>\<not> list_ex _ entries\<close>
      have eq: "readStatus None v = JString (sanitizeCallStatus (readStatus None v))"
        by (auto simp: list_ex_iff)
      then have "isCallStatus (readStatus None v)"
        using sanitize_is_status [of "readStatus None v"] by simp
      then show ?thesis
        by (cases v; cases "r_callStatus (fieldsOf v)")
           (simp_all add: readStatus_def fieldsOf_def inherited_def isCallStatus_def)
    qed
    then show ?thesis
      using Document
      by (auto simp: storedOk_def storedStatuses_def entries_def list_all_iff split: option.splits)
  qed
  have "dbOk (fst (ensureDb None store))"
    by (rule ensureDb_dbOk)
  then have "storedOk (saveDb (fst (ensureDb None store)))"
    by (rule storedOk_saveDb)
  with clean Document show ?thesis
    by (auto simp: ensureDb_def Let_def entries_def [symmetric])
qed

text \<open>
  A key that \<open>computePlaceKey\<close> makes holds a bar, so it names no property that
  \<open>db.places\<close> inherits.
\<close>

lemma computePlaceKey_bar: "CHR ''|'' \<in> set (computePlaceKey n u)"
  by (simp add: computePlaceKey_def)

lemma lookupPlace_bar:
  assumes "CHR ''|'' \<in> set k"
  shows "lookupPlace proto db k
    = (case map_of (ownPlaces db) k of Some p \<Rightarrow> OwnPlace p | None \<Rightarrow> Absent)"
proof -
  have names: "k \<noteq> ''__proto__''" "k \<noteq> ''key''" "k \<noteq> ''name''" "k \<noteq> ''phoneNumber''"
    "k \<noteq> ''websiteUri''" "k \<noteq> ''websiteCategory''" "k \<noteq> ''callStatus''"
    using assms by auto
  have builtin: "k \<notin> set objectPrototypeFunctions"
    using assms by (auto simp: objectPrototypeFunctions_def)
  have "placeField r k = None" for r
    using names by (simp add: placeField_def)
  with names builtin show ?thesis
    by (simp add: lookupPlace_def split: option.splits)
qed

lemma places_GET_ok: "opOk store (places_GET None store)"
  using ensureDb_dbOk [of None store] ensureDb_stored [of store]
  by (auto simp: opOk_def places_GET_def returnedOk_def returnedStatuses_def dbOk_def list_all_iff
      split: prod.splits)

lemma places_POST_ok: "opOk store (places_POST None req store)"
proof -
  obtain db store' where e: "ensureDb None store = (db, store')" by (cases "ensureDb None store")
  with ensureDb_dbOk [of None store] ensureDb_stored [of store]
  have ok: "dbOk db" "storedOk store'" by simp_all
  show ?thesis
  proof (cases req)
    case (Throws message)
    then show ?thesis
      by (simp add: opOk_def places_POST_def returnedOk_def returnedStatuses_def rejected_def)
  next
    case (Json place0)
    show ?thesis
    proof (cases place0)
      case None
      with Json show ?thesis
        by (simp add: opOk_def places_POST_def returnedOk_def returnedStatuses_def rejected_def)
    next
      case (Some place)
      define k where "k = computePlaceKey (orEmpty (r_name place)) (r_websiteUri place)"
      define created where "created = \<lparr>key = k, name = orEmpty (r_name place),
           phoneNumber = r_phoneNumber place, websiteUri = r_websiteUri place,
           websiteCategory = (case r_websiteCategory place of None \<Rightarrow> ''none'' | Some c \<Rightarrow> c),
           callStatus = sanitizeCallStatus (inherited None (r_callStatus place))\<rparr>"
      have bar: "CHR ''|'' \<in> set k"
        unfolding k_def by (rule computePlaceKey_bar)
      then have plain: "k \<noteq> ''__proto__''"
        by auto
      have c: "isCallStatus (JString (callStatus created))"
        by (simp add: created_def sanitize_is_status)
      have new: "dbOk (assignPlace db k created)"
        using ok(1) c by (rule dbOk_assign)
      have found: "lookupPlace None (assignPlace db k created) k = OwnPlace created"
        using plain by (simp add: lookupPlace_bar [OF bar] assignPlace_def AList.update_conv')
      have old: "returnedOk (Posted k (returnedOf None (lookupPlace None db k)))"
        if "truthyLooked (lookupPlace None db k)"
        using that dbOk_lookup [OF ok(1), of k]
        by (auto simp: lookupPlace_bar [OF bar] truthyLooked_def returnedOf_def returnedOk_def
            returnedStatuses_def statusOfReturned_def split: option.splits)
      show ?thesis
        using Json Some e ok(2) old found c storedOk_saveDb [OF new]
        by (auto simp: opOk_def places_POST_def Let_def k_def [symmetric] created_def [symmetric]
            rejected_def returnedOk_def returnedStatuses_def statusOfReturned_def returnedOf_def)
    qed
  qed
qed

lemma places_PATCH_ok: "opOk store (places_PATCH None req store)"
proof -
  obtain db store' where e: "ensureDb None store = (db, store')" by (cases "ensureDb None store")
  with ensureDb_dbOk [of None store] ensureDb_stored [of store]
  have ok: "dbOk db" "storedOk store'" by simp_all
  show ?thesis
    using e ok storedOk_saveDb [OF ok(1)]
    by (auto simp: opOk_def places_PATCH_def returnedOk_def returnedStatuses_def statusOfReturned_def
        rejected_def Let_def inherited_def
        intro!: storedOk_saveDb dbOk_update
        split: body.splits option.splits jsvalue.splits looked.splits)
qed

lemma places_DELETE_ok: "opOk store (places_DELETE None req store)"
proof -
  obtain db store' where e: "ensureDb None store = (db, store')" by (cases "ensureDb None store")
  with ensureDb_dbOk [of None store] ensureDb_stored [of store]
  have ok: "dbOk db" "storedOk store'" by simp_all
  show ?thesis
    using e ok
    by (auto simp: opOk_def places_DELETE_def returnedOk_def returnedStatuses_def rejected_def Let_def
        intro!: storedOk_saveDb dbOk_delete split: body.splits option.splits)
qed

section \<open>Slots and busy intervals that start on the same day\<close>

text \<open>
  What the walk does establish: a returned slot lies in the work window of one day of
  the horizon and overlaps no busy interval whose start has the day key of that day.
\<close>

lemma slots_clear_of_same_day_intervals:
  assumes run: "generateSlots env now (resolveParams env q) intervals = Some slots"
    and s: "s \<in> set slots"
  shows "\<exists>day. of_nat day < horizonDays (resolveParams env q)
     \<and> workStartOf env now day \<le> slot_start s \<and> slot_end s \<le> workEndOf env now day
     \<and> \<not> overlaps (slot_start s) (slot_end s)
           (filter (\<lambda>i. dayKey (utcOffsetMs env) (iv_start i)
                           = dayKey (utcOffsetMs env) (dayStartOf env now day)) intervals)"
proof -
  from dayLoop_new [OF slotMinutes_resolved run [unfolded generateSlots_def]] s
  obtain day where "of_nat day < horizonDays (resolveParams env q)"
      "slotOnDay env now (resolveParams env q) (intervalsByDay (utcOffsetMs env) intervals)
         (addMinutes now (minLeadMinutes (resolveParams env q))) day s"
    by (auto simp: list_all_iff)
  then show ?thesis
    by (auto simp: slotOnDay_def slotOk_def bucketOf_intervalsByDay)
qed

section \<open>C1: slots and busy intervals that run past midnight\<close>

text \<open>
  C1 says that no returned slot overlaps a busy interval, an interval that starts on an
  earlier calendar day and runs past midnight included. The handler tests a slot
  against the bucket of the slot's own day only, and an interval is filed under the day
  of its start. With a meeting from 2025-11-30T22:00Z to 2025-12-01T09:00Z in the
  store, the request made at 2025-11-30T20:30Z is answered with the slot
  2025-12-01T08:00Z to 09:00Z, which lies inside the meeting.
\<close>

theorem cross_midnight_slot_offered:
  "GET envUnset 1764534600000 overnightQuery overnightWorld =
     Some (Json200 \<lparr>generatedAt = 1764534600000, p_horizonDays = 2, p_slotMinutes = 120,
             p_durationMinutes = 60,
             p_slots = [\<lparr>slot_start = 1764576000000, slot_end = 1764579600000,
                          slot_durationMinutes = 60\<rparr>]\<rparr>,
           [CallListMeetings, CallFetchNotionEvents])
   \<and> meetingInterval overnightMeeting =
       Some \<lparr>iv_start = 1764540000000, iv_end = 1764579600000, iv_title = ''Overnight'',
             iv_source = Meeting\<rparr>
   \<and> overlaps 1764576000000 1764579600000
       [\<lparr>iv_start = 1764540000000, iv_end = 1764579600000, iv_title = ''Overnight'',
             iv_source = Meeting\<rparr>]"
  by code_simp

section \<open>C2: the overlap test\<close>

text \<open>
  C2: the test of a candidate [s, e) against one busy interval [bs, be) answers true
  exactly when s < be and e > bs. A slot that ends at bs, and a slot that starts at be,
  do not overlap the interval. Against a list of intervals the test answers true
  exactly when one of them meets the candidate in this sense.
\<close>

theorem overlap_test_half_open:
  "overlaps s e [\<lparr>iv_start = bs, iv_end = be, iv_title = t, iv_source = src\<rparr>] = (s < be \<and> e > bs)
   \<and> \<not> overlaps s bs [\<lparr>iv_start = bs, iv_end = be, iv_title = t, iv_source = src\<rparr>]
   \<and> \<not> overlaps be e [\<lparr>iv_start = bs, iv_end = be, iv_title = t, iv_source = src\<rparr>]
   \<and> overlaps s e intervals = (\<exists>i\<in>set intervals. s < iv_end i \<and> e > iv_start i)"
  by (auto simp: overlaps_def list_ex_iff)

section \<open>C3: resolved parameters\<close>

text \<open>
  C3, as amended. Each of the five parameters resolves to its raw value clamped into
  the range (15-240, 5-120, 1-30, 1-200, 0-1440) when the raw value is a number other
  than zero, and to the environment's default clamped into the same range when the
  parameter is absent or not a number. With no variable set the defaults are 30, 30, 7,
  20 and 60, which the clamp leaves as they are.
\<close>

theorem parameters_resolved:
  "resolvesAs (q_durationMinutes q) 15 240 (DEFAULT_DURATION_MINUTES env)
       (durationMinutes (resolveParams env q))
   \<and> resolvesAs (q_slotMinutes q) 5 120 (DEFAULT_SLOT_MINUTES env) (slotMinutes (resolveParams env q))
   \<and> resolvesAs (q_days q) 1 30 (DEFAULT_HORIZON_DAYS env) (horizonDays (resolveParams env q))
   \<and> resolvesAs (q_limit q) 1 200 (DEFAULT_LIMIT env) (slotLimit (resolveParams env q))
   \<and> resolvesAs (q_leadTimeMinutes q) 0 1440 (DEFAULT_MIN_LEAD_MINUTES env)
       (minLeadMinutes (resolveParams env q))
   \<and> resolveParams (env\<lparr>AVAILABILITY_SLOT_MINUTES := None, AVAILABILITY_DURATION_MINUTES := None,
          AVAILABILITY_HORIZON_DAYS := None, AVAILABILITY_MAX_SLOTS := None,
          AVAILABILITY_LEAD_TIME_MINUTES := None\<rparr>) queryNone
       = \<lparr>durationMinutes = 30, slotMinutes = 30, horizonDays = 7, slotLimit = 20,
          minLeadMinutes = 60\<rparr>"
proof -
  have follows: "resolvesAs raw mn mx dflt (resolve raw mn mx dflt)" for raw mn mx dflt
    by (simp add: resolvesAs_def resolve_def clampNumber_def orElse_def Number_of_def clampTo_def
        split: option.splits jsnum.splits)
  have "resolveParams (env\<lparr>AVAILABILITY_SLOT_MINUTES := None, AVAILABILITY_DURATION_MINUTES := None,
          AVAILABILITY_HORIZON_DAYS := None, AVAILABILITY_MAX_SLOTS := None,
          AVAILABILITY_LEAD_TIME_MINUTES := None\<rparr>) queryNone
       = \<lparr>durationMinutes = 30, slotMinutes = 30, horizonDays = 7, slotLimit = 20,
          minLeadMinutes = 60\<rparr>"
    by (simp add: resolveParams_def queryNone_def resolve_def clampNumber_def orElse_def
        Number_of_def envNumber_def DEFAULT_SLOT_MINUTES_def DEFAULT_DURATION_MINUTES_def
        DEFAULT_HORIZON_DAYS_def DEFAULT_LIMIT_def DEFAULT_MIN_LEAD_MINUTES_def)
  then show ?thesis
    by (simp add: resolveParams_def follows)
qed

text \<open>
  The theorem at \<open>durationMinutes=500\<close>, which resolves to 240, and at a lead time
  that is not a number, which resolves to the default 60.
\<close>

theorem parameters_resolved_witness:
  "durationMinutes (resolveParams envUnset (queryNone\<lparr>q_durationMinutes := Some (Num 500)\<rparr>)) = 240
   \<and> minLeadMinutes (resolveParams envUnset (queryNone\<lparr>q_leadTimeMinutes := Some NaN\<rparr>)) = 60"
  using parameters_resolved [where q = "queryNone\<lparr>q_durationMinutes := Some (Num 500)\<rparr>"
      and env = envUnset]
    parameters_resolved [where q = "queryNone\<lparr>q_leadTimeMinutes := Some NaN\<rparr>" and env = envUnset]
  by (simp add: resolvesAs_def queryNone_def clampTo_def envUnset_def envNumber_def
      DEFAULT_DURATION_MINUTES_def DEFAULT_MIN_LEAD_MINUTES_def)

text \<open>
  C3 as stated fails twice. \<open>leadTimeMinutes=0\<close> is a number inside its range 0-1440,
  yet it resolves to the default 60: \<open>Number(...) || DEFAULT\<close> replaces zero as it
  replaces \<open>NaN\<close>. And with \<open>AVAILABILITY_DURATION_MINUTES=500\<close> and no parameter in
  the query, the duration resolves to 240, not to the default 500: the default is
  clamped as well.
\<close>

theorem zero_and_default_counterexample:
  "minLeadMinutes (resolveParams envUnset (queryNone\<lparr>q_leadTimeMinutes := Some (Num 0)\<rparr>)) = 60
   \<and> clampTo 0 1440 0 = 0
   \<and> DEFAULT_DURATION_MINUTES (envUnset\<lparr>AVAILABILITY_DURATION_MINUTES := Some 500\<rparr>) = 500
   \<and> durationMinutes (resolveParams (envUnset\<lparr>AVAILABILITY_DURATION_MINUTES := Some 500\<rparr>) queryNone)
       = 240"
  by (simp add: resolveParams_def queryNone_def resolve_def clampNumber_def orElse_def
        Number_of_def envNumber_def envUnset_def clampTo_def DEFAULT_DURATION_MINUTES_def
        DEFAULT_MIN_LEAD_MINUTES_def)

section \<open>C4: a failing calendar\<close>

text \<open>
  C4: when the fetch of the calendar events throws, the calendar branch contributes
  the empty list, and the handler answers as it does for a calendar with no event.
  With valid work hours and a meeting store that answers, the response is the success
  body with the slots generated from the meeting intervals alone, and the failure
  shows only as a logged line.
\<close>

theorem calendar_failure_degrades:
  "fst (buildBusyIntervals (w\<lparr>fetchNotionEvents := Inl err\<rparr>))
     = fst (buildBusyIntervals (w\<lparr>fetchNotionEvents := Inr []\<rparr>))
   \<and> map_option fst (GET env now q (w\<lparr>fetchNotionEvents := Inl err\<rparr>))
     = map_option fst (GET env now q (w\<lparr>fetchNotionEvents := Inr []\<rparr>))
   \<and> (DEFAULT_WORK_START_HOUR env < DEFAULT_WORK_END_HOUR env \<and> listMeetings w = Inr meetings \<longrightarrow>
       (\<exists>slots.
          generateSlots env now (resolveParams env q) (List.map_filter meetingInterval meetings)
            = Some slots
          \<and> GET env now q (w\<lparr>fetchNotionEvents := Inl err\<rparr>) =
              Some (Json200 \<lparr>generatedAt = now,
                      p_horizonDays = horizonDays (resolveParams env q),
                      p_slotMinutes = slotMinutes (resolveParams env q),
                      p_durationMinutes = durationMinutes (resolveParams env q),
                      p_slots = slots\<rparr>,
                    [CallListMeetings, CallFetchNotionEvents,
                     ConsoleError ''Failed to load Notion events for availability:'' err])))"
proof (intro conjI impI)
  show same: "fst (buildBusyIntervals (w\<lparr>fetchNotionEvents := Inl err\<rparr>))
      = fst (buildBusyIntervals (w\<lparr>fetchNotionEvents := Inr []\<rparr>))"
    by (simp add: buildBusyIntervals_def notionBranch_def Let_def split: sum.splits)
  show "map_option fst (GET env now q (w\<lparr>fetchNotionEvents := Inl err\<rparr>))
      = map_option fst (GET env now q (w\<lparr>fetchNotionEvents := Inr []\<rparr>))"
    by (simp add: GET_def Let_def buildBusyIntervals_def notionBranch_def List.map_filter_def
        split: sum.splits option.splits)
next
  assume ok: "DEFAULT_WORK_START_HOUR env < DEFAULT_WORK_END_HOUR env \<and> listMeetings w = Inr meetings"
  have b: "buildBusyIntervals (w\<lparr>fetchNotionEvents := Inl err\<rparr>)
      = (Inr (List.map_filter meetingInterval meetings),
         [CallListMeetings, CallFetchNotionEvents,
          ConsoleError ''Failed to load Notion events for availability:'' err])"
    using ok by (simp add: buildBusyIntervals_def notionBranch_def)
  obtain slots where
    "generateSlots env now (resolveParams env q) (List.map_filter meetingInterval meetings) = Some slots"
    using generateSlots_returns by blast
  with ok b show "\<exists>slots.
          generateSlots env now (resolveParams env q) (List.map_filter meetingInterval meetings)
            = Some slots
          \<and> GET env now q (w\<lparr>fetchNotionEvents := Inl err\<rparr>) =
              Some (Json200 \<lparr>generatedAt = now,
                      p_horizonDays = horizonDays (resolveParams env q),
                      p_slotMinutes = slotMinutes (resolveParams env q),
                      p_durationMinutes = durationMinutes (resolveParams env q),
                      p_slots = slots\<rparr>,
                    [CallListMeetings, CallFetchNotionEvents,
                     ConsoleError ''Failed to load Notion events for availability:'' err])"
    by (simp add: GET_def Let_def)
qed

text \<open>The theorem with no variable set, an empty meeting store and a calendar that times out.\<close>

theorem calendar_failure_degrades_witness:
  "\<exists>slots.
     generateSlots envUnset 1764460800000 (resolveParams envUnset queryNone)
       (List.map_filter meetingInterval []) = Some slots
     \<and> GET envUnset 1764460800000 queryNone (quietWorld\<lparr>fetchNotionEvents := Inl ''timeout''\<rparr>) =
         Some (Json200 \<lparr>generatedAt = 1764460800000,
                 p_horizonDays = horizonDays (resolveParams envUnset queryNone),
                 p_slotMinutes = slotMinutes (resolveParams envUnset queryNone),
                 p_durationMinutes = durationMinutes (resolveParams envUnset queryNone),
                 p_slots = slots\<rparr>,
               [CallListMeetings, CallFetchNotionEvents,
                ConsoleError ''Failed to load Notion events for availability:'' ''timeout''])"
  using calendar_failure_degrades [where w = quietWorld and err = "''timeout''" and env = envUnset
      and now = 1764460800000 and q = queryNone and meetings = "[]"]
  by (simp add: envUnset_def quietWorld_def envNumber_def DEFAULT_WORK_START_HOUR_def
      DEFAULT_WORK_END_HOUR_def)

section \<open>C5: ascending start times\<close>




section \<open>C6: invalid work hours\<close>

text \<open>
  C6: when the end hour is at or below the start hour, the handler answers with status
  500 and the body \<open>{ error: "Invalid availability hours configuration" }\<close>, which
  carries no slot. Whatever the collaborators would answer, neither is called and
  nothing is logged.
\<close>

theorem invalid_hours_fail_first:
  assumes "DEFAULT_WORK_END_HOUR env \<le> DEFAULT_WORK_START_HOUR env"
  shows "GET env now q w = Some (JsonError 500 ''Invalid availability hours configuration'', [])
     \<and> slotsOf (JsonError 500 ''Invalid availability hours configuration'') = []"
  using assms by (simp add: GET_def slotsOf_def)

text \<open>The theorem at scenario C of the specification: start hour 9, end hour 8.\<close>

theorem invalid_hours_fail_first_witness:
  "GET (envUnset\<lparr>AVAILABILITY_START_HOUR := Some 9, AVAILABILITY_END_HOUR := Some 8\<rparr>)
       1764460800000 queryNone overnightWorld
     = Some (JsonError 500 ''Invalid availability hours configuration'', [])"
  using invalid_hours_fail_first
      [where env = "envUnset\<lparr>AVAILABILITY_START_HOUR := Some 9, AVAILABILITY_END_HOUR := Some 8\<rparr>"
        and now = 1764460800000 and q = queryNone and w = overnightWorld]
  by (simp add: envUnset_def envNumber_def DEFAULT_WORK_START_HOUR_def DEFAULT_WORK_END_HOUR_def)

section \<open>C7: more busy intervals, fewer slots\<close>

text \<open>
  C7: a candidate that overlaps something in a collection of busy intervals overlaps
  something in every collection that contains it; so a candidate that passes the
  filter against the larger collection passes it against the smaller. The same holds
  for the buckets of a day built from the two collections, and for a collection with
  further entries, duplicates included, appended.
\<close>

theorem overlap_filter_antitone:
  assumes "set I \<subseteq> set I'"
  shows "(overlaps s e I \<longrightarrow> overlaps s e I')
     \<and> (overlaps s e (bucketOf (intervalsByDay tz I) k)
          \<longrightarrow> overlaps s e (bucketOf (intervalsByDay tz I') k))
     \<and> (overlaps s e I \<longrightarrow> overlaps s e (I @ J))"
  using assms by (auto simp: overlaps_iff bucketOf_intervalsByDay)

text \<open>
  The theorem for a meeting from instant 10 to 20 (on 1970-01-01) and the candidate
  from 5 to 15.
\<close>

theorem overlap_filter_antitone_witness:
  "overlaps 5 15 [\<lparr>iv_start = 10, iv_end = 20, iv_title = ''a'', iv_source = Meeting\<rparr>,
                  \<lparr>iv_start = 30, iv_end = 40, iv_title = ''b'', iv_source = Notion\<rparr>]
   \<and> overlaps 5 15
        (bucketOf (intervalsByDay 0
           [\<lparr>iv_start = 10, iv_end = 20, iv_title = ''a'', iv_source = Meeting\<rparr>,
            \<lparr>iv_start = 30, iv_end = 40, iv_title = ''b'', iv_source = Notion\<rparr>]) ''1970-01-01'')
   \<and> overlaps 5 15 ([\<lparr>iv_start = 10, iv_end = 20, iv_title = ''a'', iv_source = Meeting\<rparr>]
                      @ [\<lparr>iv_start = 10, iv_end = 20, iv_title = ''a'', iv_source = Notion\<rparr>])"
proof -
  have sub: "set [\<lparr>iv_start = 10, iv_end = 20, iv_title = ''a'', iv_source = Meeting\<rparr>]
      \<subseteq> set [\<lparr>iv_start = 10, iv_end = 20, iv_title = ''a'', iv_source = Meeting\<rparr>,
               \<lparr>iv_start = 30, iv_end = 40, iv_title = ''b'', iv_source = Notion\<rparr>]"
    by simp
  have flat: "overlaps 5 15 [\<lparr>iv_start = 10, iv_end = 20, iv_title = ''a'', iv_source = Meeting\<rparr>]"
    by (simp add: overlaps_def)
  have bucket: "overlaps 5 15 (bucketOf (intervalsByDay 0
      [\<lparr>iv_start = 10, iv_end = 20, iv_title = ''a'', iv_source = Meeting\<rparr>]) ''1970-01-01'')"
    by code_simp
  from overlap_filter_antitone [OF sub, where s = 5 and e = 15 and tz = 0 and k = "''1970-01-01''"
      and J = "[\<lparr>iv_start = 10, iv_end = 20, iv_title = ''a'', iv_source = Notion\<rparr>]"]
    flat bucket
  show ?thesis
    by blast
qed

section \<open>C8: the day skip\<close>

text \<open>
  C8: for every request, from every state of the walk, the walk that skips a day whose
  work window and whose last millisecond lie at or before the earliest allowed start
  yields what the walk that scans every day yields; and the scan of such a day returns
  the list as it found it.
\<close>

theorem day_skip_is_pure_optimization:
  "dayLoop env now (resolveParams env q) byDay earliest dayOffset slots
     = dayLoopScanAll env now (resolveParams env q) byDay earliest dayOffset slots
   \<and> (workEndOf env now dayOffset \<le> earliest \<and> dayEndOf env now dayOffset \<le> earliest
        \<longrightarrow> scanDay (resolveParams env q) (workEndOf env now dayOffset) earliest
              (bucketOf byDay (dayKey (utcOffsetMs env) (dayStartOf env now dayOffset)))
              (workStartOf env now dayOffset) slots = Some slots)"
  using dayLoop_eq_scanAll [OF slotMinutes_resolved] scanDay_skip [OF slotMinutes_resolved]
  by blast

text \<open>
  The theorem for a request at 2025-11-30T23:30Z with the default lead time of an hour:
  the day of the request is skipped.
\<close>

theorem day_skip_is_pure_optimization_witness:
  "workEndOf envUnset 1764545400000 0 \<le> 1764549000000
   \<and> dayEndOf envUnset 1764545400000 0 \<le> 1764549000000
   \<and> scanDay (resolveParams envUnset queryNone) (workEndOf envUnset 1764545400000 0) 1764549000000
        (bucketOf Map.empty (dayKey (utcOffsetMs envUnset) (dayStartOf envUnset 1764545400000 0)))
        (workStartOf envUnset 1764545400000 0) [] = Some []
   \<and> dayLoop envUnset 1764545400000 (resolveParams envUnset queryNone) Map.empty 1764549000000 0 []
       = dayLoopScanAll envUnset 1764545400000 (resolveParams envUnset queryNone) Map.empty
           1764549000000 0 []"
proof -
  have past: "workEndOf envUnset 1764545400000 0 \<le> 1764549000000
      \<and> dayEndOf envUnset 1764545400000 0 \<le> 1764549000000"
    by (simp add: workEndOf_def dayEndOf_def dayStartOf_def startOfDay_def localMidnight_def
        localDay_def setHours_def timeClip_def msPerDay_def msPerHour_def envUnset_def
        envNumber_def DEFAULT_WORK_END_HOUR_def)
  with day_skip_is_pure_optimization [where env = envUnset and now = 1764545400000
      and q = queryNone and byDay = Map.empty and earliest = 1764549000000 and dayOffset = 0
      and slots = "[]"]
  show ?thesis by blast
qed

section \<open>C9: the cap on the number of slots\<close>

text \<open>
  C9, as amended. The handler returns, and its response carries fewer than
  \<open>slotLimit + 1\<close> slots: at most \<open>slotLimit\<close> when the resolved limit is a whole
  number. When it carries fewer than \<open>slotLimit\<close> slots, the entire horizon was
  exhausted: the slots returned are exactly the acceptable candidates of every day
  before \<open>horizonDays\<close>, at every position of the cursor, so that no day of the
  horizon and no position within a day was left out; and the walk with any larger
  limit yields the same list.
\<close>

theorem slot_cap:
  "\<exists>resp fx. GET env now q w = Some (resp, fx)
     \<and> of_nat (length (slotsOf resp)) < slotLimit (resolveParams env q) + 1
     \<and> (slotLimit (resolveParams env q) \<in> \<int> \<longrightarrow>
          of_nat (length (slotsOf resp)) \<le> slotLimit (resolveParams env q))
     \<and> (\<forall>body intervals.
          resp = Json200 body \<and> fst (buildBusyIntervals w) = Inr intervals
          \<and> of_nat (length (p_slots body)) < slotLimit (resolveParams env q) \<longrightarrow>
          (\<forall>s. s \<in> set (p_slots body) \<longleftrightarrow>
             (\<exists>day k. of_nat day < horizonDays (resolveParams env q)
                \<and> acceptableOn env now (resolveParams env q) intervals day k
                \<and> s = candidateAt (resolveParams env q)
                        (cursorAt (resolveParams env q) (workStartOf env now day) k)))
          \<and> (\<forall>L. slotLimit (resolveParams env q) \<le> L \<longrightarrow>
                generateSlots env now ((resolveParams env q)\<lparr>slotLimit := L\<rparr>) intervals
                  = Some (p_slots body)))"
proof (cases rule: GET_cases [of env now q w])
  case config
  then show ?thesis
    using slotLimit_resolved [of env q] by (auto simp: slotsOf_def)
next
  case (meetings message fx)
  then show ?thesis
    using slotLimit_resolved [of env q] by (auto simp: slotsOf_def)
next
  case (slots intervals fx slots)
  let ?cfg = "resolveParams env q"
  have run: "dayLoop env now ?cfg (intervalsByDay (utcOffsetMs env) intervals)
      (addMinutes now (minLeadMinutes ?cfg)) 0 [] = Some slots"
    using slots(3) by (simp add: generateSlots_def)
  have "of_nat (length ([]::slot list)) < slotLimit ?cfg + 1"
    using slotLimit_resolved [of env q] by simp
  from dayLoop_length [OF slotMinutes_resolved run this]
  have len: "of_nat (length slots) < slotLimit ?cfg + 1" .
  have whole: "of_nat (length slots) \<le> slotLimit ?cfg" if "slotLimit ?cfg \<in> \<int>"
  proof -
    from that obtain k :: int where k: "slotLimit ?cfg = of_int k"
      by (auto elim: Ints_cases)
    with len have "(of_int (int (length slots)) :: rat) < of_int (k + 1)"
      by simp
    then have "int (length slots) < k + 1"
      by (simp only: of_int_less_iff)
    then have "int (length slots) \<le> k"
      by simp
    then have "(of_int (int (length slots)) :: rat) \<le> of_int k"
      by (simp only: of_int_le_iff)
    with k show ?thesis by simp
  qed
  have cap: "generateSlots env now (?cfg\<lparr>slotLimit := L\<rparr>) intervals = Some slots"
    if "of_nat (length slots) < slotLimit ?cfg" "slotLimit ?cfg \<le> L" for L
    using dayLoop_cap [OF slotMinutes_resolved that(2) run that(1)]
    by (simp add: generateSlots_def)
  have all: "s \<in> set slots \<longleftrightarrow>
     (\<exists>day k. of_nat day < horizonDays ?cfg \<and> acceptableOn env now ?cfg intervals day k
        \<and> s = candidateAt ?cfg (cursorAt ?cfg (workStartOf env now day) k))"
    if "of_nat (length slots) < slotLimit ?cfg" for s
    using generateSlots_exhausts [OF slots(3) that] .
  have "of_nat (length (slotsOf (Json200 \<lparr>generatedAt = now,
          p_horizonDays = horizonDays ?cfg, p_slotMinutes = slotMinutes ?cfg,
          p_durationMinutes = durationMinutes ?cfg, p_slots = slots\<rparr>))) < slotLimit ?cfg + 1"
    using len by (simp add: slotsOf_def)
  moreover have "slotLimit ?cfg \<in> \<int> \<longrightarrow> of_nat (length (slotsOf (Json200 \<lparr>generatedAt = now,
          p_horizonDays = horizonDays ?cfg, p_slotMinutes = slotMinutes ?cfg,
          p_durationMinutes = durationMinutes ?cfg, p_slots = slots\<rparr>))) \<le> slotLimit ?cfg"
    using whole by (simp add: slotsOf_def)
  moreover have "\<forall>body ivs.
          Json200 \<lparr>generatedAt = now,
          p_horizonDays = horizonDays ?cfg, p_slotMinutes = slotMinutes ?cfg,
          p_durationMinutes = durationMinutes ?cfg, p_slots = slots\<rparr> = Json200 body
          \<and> fst (buildBusyIntervals w) = Inr ivs
          \<and> of_nat (length (p_slots body)) < slotLimit ?cfg \<longrightarrow>
          (\<forall>s. s \<in> set (p_slots body) \<longleftrightarrow>
             (\<exists>day k. of_nat day < horizonDays ?cfg
                \<and> acceptableOn env now ?cfg ivs day k
                \<and> s = candidateAt ?cfg (cursorAt ?cfg (workStartOf env now day) k)))
          \<and> (\<forall>L. slotLimit ?cfg \<le> L \<longrightarrow>
                generateSlots env now (?cfg\<lparr>slotLimit := L\<rparr>) ivs = Some (p_slots body))"
  proof (intro allI impI)
    fix body ivs
    assume a: "Json200 \<lparr>generatedAt = now,
          p_horizonDays = horizonDays ?cfg, p_slotMinutes = slotMinutes ?cfg,
          p_durationMinutes = durationMinutes ?cfg, p_slots = slots\<rparr> = Json200 body
          \<and> fst (buildBusyIntervals w) = Inr ivs
          \<and> of_nat (length (p_slots body)) < slotLimit ?cfg"
    then have b: "p_slots body = slots" and i: "ivs = intervals"
      and short: "of_nat (length slots) < slotLimit ?cfg"
      using slots(2) by auto
    show "(\<forall>s. s \<in> set (p_slots body) \<longleftrightarrow>
             (\<exists>day k. of_nat day < horizonDays ?cfg
                \<and> acceptableOn env now ?cfg ivs day k
                \<and> s = candidateAt ?cfg (cursorAt ?cfg (workStartOf env now day) k)))
          \<and> (\<forall>L. slotLimit ?cfg \<le> L \<longrightarrow>
                generateSlots env now (?cfg\<lparr>slotLimit := L\<rparr>) ivs = Some (p_slots body))"
      unfolding b i using all [OF short] cap [OF short] by blast
  qed
  ultimately show ?thesis
    using slots(4) by blast
qed

text \<open>
  The theorem for a request of two days with candidates every two hours and the default
  limit of 20: each day yields seven slots, the slot at nine o'clock of the second day
  is among the fourteen returned, and the walk with the limit 200 yields the same list.
\<close>

theorem slot_cap_witness:
  "\<exists>resp fx. GET envUnset 1764460800000 twoDayQuery quietWorld = Some (resp, fx)
     \<and> of_nat (length (slotsOf resp)) \<le> (20::rat)
     \<and> length (slotsOf resp) = 14
     \<and> \<lparr>slot_start = 1764576000000, slot_end = 1764579600000, slot_durationMinutes = 60\<rparr>
          \<in> set (slotsOf resp)
     \<and> generateSlots envUnset 1764460800000 ((resolveParams envUnset twoDayQuery)\<lparr>slotLimit := 200\<rparr>) []
         = Some (slotsOf resp)"
proof -
  let ?cfg = "resolveParams envUnset twoDayQuery"
  have limit: "slotLimit ?cfg = 20" and days: "horizonDays ?cfg = 2"
    by (simp_all add: resolveParams_def twoDayQuery_def resolve_def clampNumber_def orElse_def
        Number_of_def envNumber_def envUnset_def DEFAULT_LIMIT_def)
  have quiet: "fst (buildBusyIntervals quietWorld) = Inr []"
    by (simp add: buildBusyIntervals_def notionBranch_def quietWorld_def List.map_filter_def)
  have fourteen: "map_option (length \<circ> slotsOf \<circ> fst)
      (GET envUnset 1764460800000 twoDayQuery quietWorld) = Some 14"
    by code_simp
  have success: "map_option (\<lambda>r. case fst r of Json200 body \<Rightarrow> True | JsonError status message \<Rightarrow> False)
      (GET envUnset 1764460800000 twoDayQuery quietWorld) = Some True"
    by code_simp
  have second_day: "acceptableOn envUnset 1764460800000 ?cfg [] 1 0"
    by code_simp
  have candidate: "candidateAt ?cfg (cursorAt ?cfg (workStartOf envUnset 1764460800000 1) 0)
      = \<lparr>slot_start = 1764576000000, slot_end = 1764579600000, slot_durationMinutes = 60\<rparr>"
    by code_simp
  from slot_cap [where env = envUnset and now = 1764460800000 and q = twoDayQuery and w = quietWorld]
  obtain resp fx where r: "GET envUnset 1764460800000 twoDayQuery quietWorld = Some (resp, fx)"
    and whole: "slotLimit ?cfg \<in> \<int> \<longrightarrow> of_nat (length (slotsOf resp)) \<le> slotLimit ?cfg"
    and short: "\<forall>body intervals.
          resp = Json200 body \<and> fst (buildBusyIntervals quietWorld) = Inr intervals
          \<and> of_nat (length (p_slots body)) < slotLimit ?cfg \<longrightarrow>
          (\<forall>s. s \<in> set (p_slots body) \<longleftrightarrow>
             (\<exists>day k. of_nat day < horizonDays ?cfg
                \<and> acceptableOn envUnset 1764460800000 ?cfg intervals day k
                \<and> s = candidateAt ?cfg (cursorAt ?cfg (workStartOf envUnset 1764460800000 day) k)))
          \<and> (\<forall>L. slotLimit ?cfg \<le> L \<longrightarrow>
                generateSlots envUnset 1764460800000 (?cfg\<lparr>slotLimit := L\<rparr>) intervals
                  = Some (p_slots body))"
    by blast
  from fourteen r have len: "length (slotsOf resp) = 14"
    by simp
  from success r obtain body where body: "resp = Json200 body"
    by (cases resp) simp_all
  with len have plen: "length (p_slots body) = 14" and same: "slotsOf resp = p_slots body"
    by (simp_all add: slotsOf_def)
  from short body quiet plen limit
  have ex: "\<forall>s. s \<in> set (p_slots body) \<longleftrightarrow>
             (\<exists>day k. of_nat day < horizonDays ?cfg
                \<and> acceptableOn envUnset 1764460800000 ?cfg [] day k
                \<and> s = candidateAt ?cfg (cursorAt ?cfg (workStartOf envUnset 1764460800000 day) k))"
    and larger: "\<forall>L. slotLimit ?cfg \<le> L \<longrightarrow>
                generateSlots envUnset 1764460800000 (?cfg\<lparr>slotLimit := L\<rparr>) []
                  = Some (p_slots body)"
    by simp_all
  have "of_nat (1::nat) < horizonDays ?cfg"
    using days by simp
  with ex second_day candidate
  have "\<lparr>slot_start = 1764576000000, slot_end = 1764579600000, slot_durationMinutes = 60\<rparr>
          \<in> set (p_slots body)"
    by metis
  moreover from whole limit len have "of_nat (length (slotsOf resp)) \<le> (20::rat)"
    by simp
  moreover from larger limit
  have "generateSlots envUnset 1764460800000 (?cfg\<lparr>slotLimit := 200\<rparr>) [] = Some (p_slots body)"
    by simp
  ultimately show ?thesis
    using r len same by auto
qed

text \<open>
  C9 as stated fails for a limit that is not a whole number: the walk compares the
  length of the list with the limit and does not round the limit. The query
  \<open>limit=1.5\<close> resolves to the limit 1.5, and the response carries two slots.
\<close>

theorem fractional_limit_counterexample:
  "GET envUnset 1764460800000 fractionalLimitQuery quietWorld =
     Some (Json200 \<lparr>generatedAt = 1764460800000, p_horizonDays = 1, p_slotMinutes = 120,
             p_durationMinutes = 30,
             p_slots = [\<lparr>slot_start = 1764489600000, slot_end = 1764491400000,
                          slot_durationMinutes = 30\<rparr>,
                        \<lparr>slot_start = 1764496800000, slot_end = 1764498600000,
                          slot_durationMinutes = 30\<rparr>]\<rparr>,
           [CallListMeetings, CallFetchNotionEvents])
   \<and> slotLimit (resolveParams envUnset fractionalLimitQuery) = 3 / 2
   \<and> \<not> (of_nat (length [\<lparr>slot_start = 1764489600000, slot_end = 1764491400000,
                          slot_durationMinutes = 30\<rparr>,
                        \<lparr>slot_start = 1764496800000, slot_end = 1764498600000,
                          slot_durationMinutes = 30\<rparr>]) \<le> (3 / 2 :: rat))"
  by code_simp

section \<open>C10: the call statuses of the places store\<close>

text \<open>
  What a load makes of the stored entries: the record under a key other than
  \<open>__proto__\<close> is the normalised form of the last entry stored under it.
\<close>

lemma normalized_lookup:
  "k \<noteq> ''__proto__'' \<Longrightarrow>
   map_of (ownPlaces (foldl (\<lambda>acc (k, v). assignPlace acc k (normalizePlace proto k v)) acc entries)) k
     = (case map_of (rev entries) k of Some v \<Rightarrow> Some (normalizePlace proto k v)
        | None \<Rightarrow> map_of (ownPlaces acc) k)"
proof (induction entries arbitrary: acc)
  case Nil
  show ?case by simp
next
  case (Cons e entries)
  obtain k' v' where e: "e = (k', v')" by (cases e)
  show ?case
    using Cons.IH [OF Cons.prems, of "assignPlace acc k' (normalizePlace proto k' v')"] Cons.prems
    by (simp add: e assignPlace_def AList.update_conv' map_add_def split: option.splits)
qed

lemma ensureDb_lookup:
  "k \<noteq> ''__proto__'' \<Longrightarrow>
   map_of (ownPlaces (fst (ensureDb proto (Document (Some entries))))) k
     = map_option (normalizePlace proto k) (map_of (rev entries) k)"
  by (simp add: ensureDb_def Let_def normalized_lookup emptyPlaces_def split: option.splits)

text \<open>
  C10, as amended. In a process whose \<open>Object.prototype\<close> carries no \<open>callStatus\<close>,
  a handler of the places route that opens the store (GET always; POST, PATCH and
  DELETE once the body has passed their checks) leaves a file in which every record
  carries one of the six statuses, and every record a response returns carries one. A
  request turned away with status 400 or 500 before the store is opened returns no
  record and leaves the file as it found it; so a file in order stays in order under
  every handler. On load a status among the six is kept and any other value, or none,
  becomes "Not called"; the record loaded under a key other than \<open>__proto__\<close> is the
  normalised form of the entry stored under it. GET, POST and DELETE leave
  \<open>Object.prototype\<close> without a \<open>callStatus\<close>, and so does PATCH for every key other
  than \<open>__proto__\<close>.
\<close>

theorem places_call_status_invariant:
  "opOk store (places_GET None store) \<and> storedOk (snd (snd (places_GET None store)))
   \<and> opOk store (places_POST None post store)
   \<and> opOk store (places_PATCH None patch store)
   \<and> opOk store (places_DELETE None del store)
   \<and> (storedOk store \<longrightarrow>
        storedOk (snd (snd (places_POST None post store)))
        \<and> storedOk (snd (snd (places_PATCH None patch store)))
        \<and> storedOk (snd (snd (places_DELETE None del store))))
   \<and> (k \<noteq> ''__proto__'' \<longrightarrow>
        map_of (ownPlaces (fst (ensureDb None (Document (Some entries))))) k
          = map_option (normalizePlace None k) (map_of (rev entries) k))
   \<and> (isCallStatus (r_callStatus (fieldsOf v)) \<longrightarrow>
        JString (callStatus (normalizePlace None k v)) = r_callStatus (fieldsOf v))
   \<and> (\<not> isCallStatus (r_callStatus (fieldsOf v)) \<longrightarrow>
        callStatus (normalizePlace None k v) = ''Not called'')
   \<and> fst (snd (places_GET None store)) = None
   \<and> fst (snd (places_POST None post store)) = None
   \<and> fst (snd (places_DELETE None del store)) = None
   \<and> (patch = Throws message \<or> patch = Json b \<and> orEmpty (map_option trim (pb_key b)) \<noteq> ''__proto__''
        \<longrightarrow> fst (snd (places_PATCH None patch store)) = None)"
proof -
  have get: "opOk store (places_GET None store)"
    and post: "opOk store (places_POST None post store)"
    and patch: "opOk store (places_PATCH None patch store)"
    and del: "opOk store (places_DELETE None del store)"
    by (rule places_GET_ok places_POST_ok places_PATCH_ok places_DELETE_ok)+
  have loaded: "storedOk (snd (snd (places_GET None store)))"
    using ensureDb_stored [of store] by (simp add: places_GET_def split_def Let_def)
  have read: "readStatus None v = r_callStatus (fieldsOf v)"
    by (cases v; cases "r_callStatus (fieldsOf v)")
       (simp_all add: readStatus_def fieldsOf_def noFields_def inherited_def)
  have kept: "JString (callStatus (normalizePlace None k v)) = r_callStatus (fieldsOf v)"
    if "isCallStatus (r_callStatus (fieldsOf v))"
    using that by (simp add: normalizePlace_def read sanitize_keeps)
  have reset: "callStatus (normalizePlace None k v) = ''Not called''"
    if "\<not> isCallStatus (r_callStatus (fieldsOf v))"
    using that by (simp add: normalizePlace_def read sanitize_resets)
  have lookup: "map_of (ownPlaces (fst (ensureDb None (Document (Some entries))))) k
          = map_option (normalizePlace None k) (map_of (rev entries) k)" if "k \<noteq> ''__proto__''"
    using that by (rule ensureDb_lookup)
  have g: "fst (snd (places_GET None store)) = None"
    by (simp add: places_GET_def split_def Let_def)
  have p: "fst (snd (places_POST None post store)) = None"
    by (simp add: places_POST_def split_def Let_def split: body.splits option.splits)
  have d: "fst (snd (places_DELETE None del store)) = None"
    by (simp add: places_DELETE_def split_def Let_def split: body.splits)
  have t: "fst (snd (places_PATCH None (Throws message) store)) = None"
    by (simp add: places_PATCH_def)
  have j: "fst (snd (places_PATCH None (Json b) store)) = None"
    if "orEmpty (map_option trim (pb_key b)) \<noteq> ''__proto__''"
  proof -
    have "lookupPlace None db (orEmpty (map_option trim (pb_key b))) \<noteq> ObjectPrototype" for db
      using that by (simp add: lookupPlace_def split: option.splits)
    then show ?thesis
      by (simp add: places_PATCH_def split_def Let_def
          split: jsvalue.splits looked.splits option.splits)
  qed
  from get post patch del loaded kept reset lookup g p d t j show ?thesis
    by (auto simp: opOk_def)
qed

text \<open>
  The theorem for a file that holds the status "Maybe": GET rewrites it, the place is
  loaded with "Not called", and a PATCH to "Interested" stores and returns that status
  and leaves \<open>Object.prototype\<close> as it was. An empty store stays in order under a POST
  that is turned away, and a stored "Interested" is kept on load.
\<close>

theorem places_call_status_invariant_witness:
  "storedOk (snd (snd (places_GET None dirtyFile)))
   \<and> returnedOk (fst (places_PATCH None
         (Json \<lparr>pb_key = Some ''cafe|'', pb_callStatus = JString ''Interested''\<rparr>) dirtyFile))
   \<and> storedOk (snd (snd (places_PATCH None
         (Json \<lparr>pb_key = Some ''cafe|'', pb_callStatus = JString ''Interested''\<rparr>) dirtyFile)))
   \<and> fst (snd (places_PATCH None
         (Json \<lparr>pb_key = Some ''cafe|'', pb_callStatus = JString ''Interested''\<rparr>) dirtyFile)) = None
   \<and> map_of (ownPlaces (fst (ensureDb None dirtyFile))) ''cafe|''
       = Some (normalizePlace None ''cafe|'' (Some \<lparr>r_name = Some ''Cafe'', r_phoneNumber = None,
           r_websiteUri = None, r_websiteCategory = Some ''none'', r_callStatus = JString ''Maybe''\<rparr>))
   \<and> callStatus (normalizePlace None ''cafe|'' (Some \<lparr>r_name = Some ''Cafe'', r_phoneNumber = None,
         r_websiteUri = None, r_websiteCategory = Some ''none'', r_callStatus = JString ''Maybe''\<rparr>))
       = ''Not called''
   \<and> storedOk (snd (snd (places_POST None (Json None) (Document (Some [])))))
   \<and> callStatus (normalizePlace None ''cafe|'' (Some \<lparr>r_name = Some ''Cafe'', r_phoneNumber = None,
         r_websiteUri = None, r_websiteCategory = Some ''none'',
         r_callStatus = JString ''Interested''\<rparr>))
       = ''Interested''"
proof -
  let ?maybe = "Some \<lparr>r_name = Some ''Cafe'', r_phoneNumber = None,
         r_websiteUri = None, r_websiteCategory = Some ''none'', r_callStatus = JString ''Maybe''\<rparr>"
  let ?interested = "Some \<lparr>r_name = Some ''Cafe'', r_phoneNumber = None,
         r_websiteUri = None, r_websiteCategory = Some ''none'',
         r_callStatus = JString ''Interested''\<rparr>"
  let ?patch = "\<lparr>pb_key = Some ''cafe|'', pb_callStatus = JString ''Interested''\<rparr>"
  have unknown: "\<not> isCallStatus (r_callStatus (fieldsOf ?maybe))"
    by (simp add: isCallStatus_def CALL_STATUSES_def fieldsOf_def)
  have known: "isCallStatus (r_callStatus (fieldsOf ?interested))"
    by (simp add: isCallStatus_def CALL_STATUSES_def fieldsOf_def)
  have opened: "\<not> rejected (fst (places_PATCH None (Json ?patch) dirtyFile))"
    by code_simp
  have plain: "orEmpty (map_option trim (pb_key ?patch)) \<noteq> ''__proto__''"
    by code_simp
  have cafe: "''cafe|'' \<noteq> ''__proto__''"
    by simp
  have clean: "storedOk (Document (Some []))"
    by (simp add: storedOk_def storedStatuses_def)
  have entries: "dirtyFile = Document (Some [(''cafe|'', ?maybe)])"
    by (simp add: dirtyFile_def)
  note dirty = places_call_status_invariant [where store = dirtyFile and patch = "Json ?patch"
      and b = ?patch and k = "''cafe|''" and v = ?maybe and entries = "[(''cafe|'', ?maybe)]"]
  note empty = places_call_status_invariant [where store = "Document (Some [])"
      and post = "Json None" and k = "''cafe|''" and v = ?interested]
  from dirty have loaded: "storedOk (snd (snd (places_GET None dirtyFile)))"
    by blast
  from dirty have "opOk dirtyFile (places_PATCH None (Json ?patch) dirtyFile)"
    by blast
  with opened have patched: "returnedOk (fst (places_PATCH None (Json ?patch) dirtyFile))"
      "storedOk (snd (snd (places_PATCH None (Json ?patch) dirtyFile)))"
    by (simp_all only: opOk_def) blast+
  from dirty plain have same: "fst (snd (places_PATCH None (Json ?patch) dirtyFile)) = None"
    by blast
  from dirty cafe
  have "map_of (ownPlaces (fst (ensureDb None (Document (Some [(''cafe|'', ?maybe)]))))) ''cafe|''
      = map_option (normalizePlace None ''cafe|'') (map_of (rev [(''cafe|'', ?maybe)]) ''cafe|'')"
    by blast
  then have found: "map_of (ownPlaces (fst (ensureDb None dirtyFile))) ''cafe|''
      = Some (normalizePlace None ''cafe|'' ?maybe)"
    by (simp add: entries)
  from dirty unknown have reset: "callStatus (normalizePlace None ''cafe|'' ?maybe) = ''Not called''"
    by blast
  from empty clean
  have turned: "storedOk (snd (snd (places_POST None (Json None) (Document (Some [])))))"
    by blast
  from empty known
  have "JString (callStatus (normalizePlace None ''cafe|'' ?interested))
      = r_callStatus (fieldsOf ?interested)"
    by blast
  then have kept: "callStatus (normalizePlace None ''cafe|'' ?interested) = ''Interested''"
    by (simp add: fieldsOf_def)
  from loaded patched same found reset turned kept show ?thesis
    by blast
qed

text \<open>
  C10 as stated fails in two ways. A request that is turned away before the store is
  opened leaves the file as it is: a POST without a place is answered with status 400
  at line 85, before \<open>ensureDb\<close> is called, and the status "Maybe" stays in the file.
  And \<open>db.places\<close> is a plain object, so that \<open>db.places[key]\<close> at line 132 answers
  for the key \<open>__proto__\<close> with \<open>Object.prototype\<close>: a PATCH of that key to
  "Interested" on an empty store is answered with status 200 and writes the status onto
  \<open>Object.prototype\<close>. From then on line 41 reads "Interested" for a stored place
  without a status: GET returns the place as "Interested", not as "Not called", and
  does not rewrite the file, whose record stays without a status.
\<close>

theorem status_invariant_counterexample:
  "places_POST None (Json None) dirtyFile = (Failure 400 ''Missing place.name'', None, dirtyFile)
   \<and> \<not> storedOk dirtyFile
   \<and> places_PATCH None (Json \<lparr>pb_key = Some ''__proto__'', pb_callStatus = JString ''Interested''\<rparr>)
         (Document (Some []))
       = (Patched (PrototypeJson (Some ''Interested'')), Some ''Interested'', Document (Some []))
   \<and> places_GET (Some ''Interested'') bareFile
       = (Listing [''cafe|''] [\<lparr>key = ''cafe|'', name = ''Cafe'', phoneNumber = None,
            websiteUri = None, websiteCategory = ''none'', callStatus = ''Interested''\<rparr>],
          Some ''Interested'', bareFile)
   \<and> \<not> storedOk bareFile"
  by code_simp

end
